theory Spec2Isabelle
  imports Complex_Main
begin

section \<open>Data model of the Zebrafell scraper\<close>

text \<open>
  \<^verbatim>\<open>METRICS\<close> of \<^verbatim>\<open>zebrafell_scraper.py\<close>: five keys, iterated in insertion order
  (temp, wind, rain, press, sun); key and endpoint are the same string.
\<close>

datatype metric = Temp | Wind | Rain | Press | Sun

definition METRICS :: "metric list" where
  "METRICS = [Temp, Wind, Rain, Press, Sun]"

fun metric_name :: "metric \<Rightarrow> string" where
  "metric_name Temp = ''temp''"
| "metric_name Wind = ''wind''"
| "metric_name Rain = ''rain''"
| "metric_name Press = ''press''"
| "metric_name Sun = ''sun''"

text \<open>
  One record of the API payload, \<^verbatim>\<open>{t: timestamp, v: value, ...}\<close> as the docstring of
  \<^verbatim>\<open>process_data\<close> has it: \<open>t\<close> is a Unix timestamp in milliseconds, \<open>v\<close> the value,
  \<open>None\<close> when the JSON carries \<^verbatim>\<open>null\<close> (pandas keeps it as a missing value). The
  value type is a parameter: the scraper never computes with a value.
\<close>

record 'v raw_record =
  t :: int
  v :: "'v option"

text \<open>
  A DataFrame after \<^verbatim>\<open>process_data\<close>: its rows in order, each the index entry
  (\<^verbatim>\<open>datetime_utc\<close>, kept as milliseconds since the epoch) and the value column.
  \<^verbatim>\<open>pd.DataFrame()\<close> is the empty list.
\<close>

type_synonym 'v dataframe = "(int \<times> 'v option) list"

definition process_data :: "'v raw_record list \<Rightarrow> metric \<Rightarrow> 'v dataframe" where
  "process_data raw_data metric =
     (if raw_data = [] then [] else map (\<lambda>r. (t r, v r)) raw_data)"

subsection \<open>Combining the chunks of one metric (\<^verbatim>\<open>flush_buffer\<close>, lines 164-169)\<close>

text \<open>
  \<^verbatim>\<open>index.duplicated(keep="first")\<close>: the mask is True at a position whose index value
  stands at an earlier position. \<open>seen\<close> holds the index values passed so far.
\<close>

fun duplicated_first :: "int list \<Rightarrow> int list \<Rightarrow> bool list" where
  "duplicated_first seen [] = []"
| "duplicated_first seen (i # is) = (i \<in> set seen) # duplicated_first (i # seen) is"

text \<open>\<^verbatim>\<open>combined_df[~mask]\<close>: the rows whose mask entry is False, in order.\<close>

definition drop_duplicates_first :: "'v dataframe \<Rightarrow> 'v dataframe" where
  "drop_duplicates_first df =
     map snd (filter (\<lambda>(dup, row). \<not> dup) (zip (duplicated_first [] (map fst df)) df))"

text \<open>
  \<^verbatim>\<open>sort_index\<close> orders the rows by ascending index. It runs after the duplicates are
  gone, so no two rows compare equal and the order of the result does not depend on the
  sorting algorithm.
\<close>

definition sort_index :: "'v dataframe \<Rightarrow> 'v dataframe" where
  "sort_index df = sort_key fst df"

definition combine_chunks :: "'v dataframe list \<Rightarrow> 'v dataframe" where
  "combine_chunks data_list = sort_index (drop_duplicates_first (concat data_list))"

subsection \<open>The file of a flush unit (\<^verbatim>\<open>flush_buffer\<close>, lines 173-176)\<close>

text \<open>
  \<^verbatim>\<open>Timestamp.strftime("%Y-%m-%d")\<close>: the civil date (proleptic Gregorian calendar) of the
  day a millisecond timestamp falls on, four digits of year, two of month, two of day.
  \<open>civil_from_days\<close> is the date of a day number counted from 1970-01-01.
\<close>

definition MS_PER_DAY :: int where
  "MS_PER_DAY = 86400000"

definition civil_from_days :: "int \<Rightarrow> int \<times> int \<times> int" where
  "civil_from_days z0 =
     (let z = z0 + 719468;
          era = z div 146097;
          doe = z mod 146097;
          yoe = (doe - doe div 1460 + doe div 36524 - doe div 146096) div 365;
          doy = doe - (365 * yoe + yoe div 4 - yoe div 100);
          mp = (5 * doy + 2) div 153;
          d = doy - (153 * mp + 2) div 5 + 1;
          m = (if mp < 10 then mp + 3 else mp - 9)
      in (yoe + era * 400 + (if m \<le> 2 then 1 else 0), m, d))"

definition digit :: "int \<Rightarrow> char" where
  "digit n = ''0123456789'' ! nat (n mod 10)"

definition format_date :: "int \<times> int \<times> int \<Rightarrow> string" where
  "format_date ymd =
     (case ymd of (y, m, d) \<Rightarrow>
        [digit (y div 1000), digit (y div 100), digit (y div 10), digit y] @ ''-'' @
        [digit (m div 10), digit m] @ ''-'' @ [digit (d div 10), digit d])"

definition strftime_Ymd :: "int \<Rightarrow> string" where
  "strftime_Ymd ms = format_date (civil_from_days (ms div MS_PER_DAY))"

definition OUTPUT_DIR :: string where
  "OUTPUT_DIR = ''data_lake''"

text \<open>
  \<^verbatim>\<open>combined_df.index[-1]\<close> is the index of the last row; the caller has sorted the
  frame, and the frame is not empty (\<open>flush_metric\<close> below raises before it gets here).
\<close>

definition csv_filename :: "metric \<Rightarrow> 'v dataframe \<Rightarrow> string" where
  "csv_filename metric combined_df =
     OUTPUT_DIR @ ''/'' @ metric_name metric @ ''_'' @ strftime_Ymd (fst (last combined_df)) @ ''.csv''"

subsection \<open>The environment, the disk and \<^verbatim>\<open>flush_buffer\<close>\<close>

text \<open>
  What the scraper does not decide itself is a parameter: the answer of the HTTP session
  (after its own retries) to a GET of a URL with \<^verbatim>\<open>bis\<close> and \<^verbatim>\<open>tage\<close>, and whether
  \<^verbatim>\<open>to_csv\<close> raises when it writes a file. \<^verbatim>\<open>RequestException\<close> stands for every
  exception \<^verbatim>\<open>fetch_chunk\<close> catches.
\<close>

datatype 'a response = RequestException | Json 'a

record 'v env =
  session_get :: "string \<Rightarrow> int \<Rightarrow> nat \<Rightarrow> 'v raw_record list response"
  to_csv_raises :: "string \<Rightarrow> bool"

datatype error = IndexError | OSError

text \<open>The data lake: file name to the rows \<^verbatim>\<open>to_csv\<close> wrote there (it opens for writing).\<close>

type_synonym 'v disk = "string \<rightharpoonup> 'v dataframe"

text \<open>
  \<^verbatim>\<open>monthly_buffer\<close>: a dict with every metric as key, so a total function. An
  exception leaves the function with the disk as it is at that moment; the buffer is a
  local variable and is gone with the frame.
\<close>

type_synonym 'v buffer = "metric \<Rightarrow> 'v dataframe list"

type_synonym 'v flushed = "(error \<times> 'v disk) + 'v disk"

text \<open>The body of the loop of \<^verbatim>\<open>flush_buffer\<close> for one metric.\<close>

definition flush_metric :: "'v env \<Rightarrow> metric \<Rightarrow> 'v dataframe list \<Rightarrow> 'v disk \<Rightarrow> 'v flushed" where
  "flush_metric env metric data_list disk =
     (if data_list = [] then Inr disk
      else let combined_df = combine_chunks data_list in
        if combined_df = [] then Inl (IndexError, disk)
        else let filename = csv_filename metric combined_df in
          if to_csv_raises env filename then Inl (OSError, disk)
          else Inr (disk(filename \<mapsto> combined_df)))"

fun flush_metrics :: "'v env \<Rightarrow> metric list \<Rightarrow> 'v buffer \<Rightarrow> 'v disk \<Rightarrow> 'v flushed" where
  "flush_metrics env [] buffer disk = Inr disk"
| "flush_metrics env (m # ms) buffer disk =
     (case flush_metric env m (buffer m) disk of
        Inl e \<Rightarrow> Inl e
      | Inr disk' \<Rightarrow> flush_metrics env ms buffer disk')"

definition flush_buffer :: "'v env \<Rightarrow> 'v buffer \<Rightarrow> 'v disk \<Rightarrow> 'v flushed" where
  "flush_buffer env buffer disk = flush_metrics env METRICS buffer disk"

text \<open>The disk a flush leaves behind, whether it returned or raised.\<close>

fun disk_of :: "'v flushed \<Rightarrow> 'v disk" where
  "disk_of (Inl (e, disk)) = disk"
| "disk_of (Inr disk) = disk"

subsection \<open>\<^verbatim>\<open>fetch_chunk\<close> and \<^verbatim>\<open>backfill_history\<close>\<close>

definition BASE_URL :: string where
  "BASE_URL = ''https://zebrafell-server.onrender.com/api/charts''"

definition fetch_chunk :: "'v env \<Rightarrow> string \<Rightarrow> int \<Rightarrow> nat \<Rightarrow> 'v raw_record list option" where
  "fetch_chunk env metric bis_ts days =
     (case session_get env (BASE_URL @ ''/'' @ metric) bis_ts days of
        RequestException \<Rightarrow> None
      | Json data \<Rightarrow> Some data)"

text \<open>
  A \<^verbatim>\<open>datetime\<close> is its number of microseconds since the epoch, \<^verbatim>\<open>timedelta(days=7)\<close>
  is \<open>WEEK\<close>. \<^verbatim>\<open>get_timestamp_ms\<close> goes through a float and the local time zone in the
  source; here it is the exact quotient, and its value only reaches the HTTP request.
  \<^verbatim>\<open>datetime(start_year, 1, 1)\<close> is the first of January by \<open>days_from_civil\<close>.
  Python's \<^verbatim>\<open>datetime\<close> covers the years 1 to 9999 only and raises outside; the
  integers here are unbounded. The loop stays inside that range for every
  \<open>start_year\<close> from 2 on.
\<close>

definition DAY :: int where
  "DAY = 86400 * 1000000"

definition WEEK :: int where
  "WEEK = 7 * DAY"

definition get_timestamp_ms :: "int \<Rightarrow> int" where
  "get_timestamp_ms dt_object = dt_object div 1000"

definition days_from_civil :: "int \<Rightarrow> int \<Rightarrow> int \<Rightarrow> int" where
  "days_from_civil y0 m d =
     (let y = (if m \<le> 2 then y0 - 1 else y0);
          era = y div 400;
          yoe = y mod 400;
          doy = (153 * (if m > 2 then m - 3 else m + 9) + 2) div 5 + d - 1;
          doe = yoe * 365 + yoe div 4 - yoe div 100 + doy
      in era * 146097 + doe - 719468)"

definition datetime_jan1 :: "int \<Rightarrow> int" where
  "datetime_jan1 start_year = days_from_civil start_year 1 1 * DAY"

text \<open>
  The \<^verbatim>\<open>for\<close> loop over \<^verbatim>\<open>METRICS.items()\<close> of one window: a fetch that failed
  (\<open>None\<close>) or came back empty leaves the metric's buffer as it is, any other appends
  the processed frame when that is not empty.
\<close>

fun fetch_metrics :: "'v env \<Rightarrow> int \<Rightarrow> metric list \<Rightarrow> 'v buffer \<Rightarrow> 'v buffer" where
  "fetch_metrics env bis_ts [] monthly_buffer = monthly_buffer"
| "fetch_metrics env bis_ts (metric_key # ms) monthly_buffer =
     fetch_metrics env bis_ts ms
       (case fetch_chunk env (metric_name metric_key) bis_ts 7 of
          None \<Rightarrow> monthly_buffer
        | Some raw_data \<Rightarrow>
            if raw_data = [] then monthly_buffer
            else let df = process_data raw_data metric_key in
              if df \<noteq> [] then monthly_buffer(metric_key := monthly_buffer metric_key @ [df])
              else monthly_buffer)"

definition empty_buffer :: "'v buffer" where
  "empty_buffer = (\<lambda>m. [])"

text \<open>
  The \<^verbatim>\<open>while\<close> loop of \<^verbatim>\<open>backfill_history\<close>. It returns the buffer and the disk at
  the loop's exit, or the exception a flush raised. The politeness sleep and the log
  lines change neither.
\<close>

function backfill_loop ::
  "'v env \<Rightarrow> int \<Rightarrow> int \<Rightarrow> 'v buffer \<Rightarrow> 'v disk \<Rightarrow> (error \<times> 'v disk) + ('v buffer \<times> 'v disk)" where
  "backfill_loop env current_date end_date monthly_buffer disk =
     (if current_date > end_date then
        (let bis_ts = get_timestamp_ms current_date;
             buffer' = fetch_metrics env bis_ts METRICS monthly_buffer
         in if length (buffer' Temp) \<ge> 4 then
              (case flush_buffer env buffer' disk of
                 Inl e \<Rightarrow> Inl e
               | Inr disk' \<Rightarrow> backfill_loop env (current_date - WEEK) end_date empty_buffer disk')
            else backfill_loop env (current_date - WEEK) end_date buffer' disk)
      else Inr (monthly_buffer, disk))"
  by pat_completeness auto
termination
  by (relation "measure (\<lambda>(env, current_date, end_date, monthly_buffer, disk).
        nat (current_date - end_date))")
     (auto simp: WEEK_def DAY_def)

declare backfill_loop.simps [simp del]

definition backfill_history :: "'v env \<Rightarrow> int \<Rightarrow> int \<Rightarrow> 'v disk \<Rightarrow> 'v flushed" where
  "backfill_history env now start_year disk =
     (case backfill_loop env now (datetime_jan1 start_year) empty_buffer disk of
        Inl e \<Rightarrow> Inl e
      | Inr (monthly_buffer, disk') \<Rightarrow> flush_buffer env monthly_buffer disk')"

text \<open>
  The windows the loop requests, by their anchors: the loop's guard and its step, nothing
  else (\<open>backfill_loop_windows\<close> below ties the two).
\<close>

function window_anchors :: "int \<Rightarrow> int \<Rightarrow> int list" where
  "window_anchors current_date end_date =
     (if current_date > end_date
      then current_date # window_anchors (current_date - WEEK) end_date
      else [])"
  by pat_completeness auto
termination
  by (relation "measure (\<lambda>(current_date, end_date). nat (current_date - end_date))")
     (auto simp: WEEK_def DAY_def)

declare window_anchors.simps [simp del]

section \<open>The ingest service (\<^verbatim>\<open>main.py\<close>)\<close>

text \<open>
  The \<^verbatim>\<open>hourly\<close> object of the Open-Meteo answer (struct of arrays) and a row of the
  DataFrame \<^verbatim>\<open>fetch_open_meteo\<close> builds from it. A \<^verbatim>\<open>null\<close> in an array is \<open>None\<close>.
  The response is what \<^verbatim>\<open>requests.get\<close> and \<^verbatim>\<open>data['hourly']\<close> give;
  \<^verbatim>\<open>RequestException\<close> here stands for any exception, which the function catches.
  Arrays of different lengths make \<^verbatim>\<open>pd.DataFrame\<close> raise, caught as well.
\<close>

record 'v hourly =
  hourly_time :: "int list"
  temperature_2m :: "'v option list"
  pressure_msl :: "'v option list"
  wind_speed_10m :: "'v option list"

record 'v weather_row =
  time :: int
  temperature :: "'v option"
  pressure :: "'v option"
  wind_speed :: "'v option"

definition fetch_open_meteo :: "'v hourly response \<Rightarrow> 'v weather_row list option" where
  "fetch_open_meteo resp =
     (case resp of
        RequestException \<Rightarrow> None
      | Json hourly \<Rightarrow>
          if length (temperature_2m hourly) = length (hourly_time hourly)
             \<and> length (pressure_msl hourly) = length (hourly_time hourly)
             \<and> length (wind_speed_10m hourly) = length (hourly_time hourly)
          then Some (map (\<lambda>(tm, te, pr, ws).
                  \<lparr>time = tm, temperature = te, pressure = pr, wind_speed = ws\<rparr>)
                (zip (hourly_time hourly) (zip (temperature_2m hourly)
                   (zip (pressure_msl hourly) (wind_speed_10m hourly)))))
          else None)"

text \<open>
  An InfluxDB point as \<^verbatim>\<open>write_to_influx\<close> builds it, and the bucket: the fields stored
  for a measurement, a tag set and a time.
\<close>

record 'v point =
  measurement :: string
  tag_set :: "(string \<times> string) list"
  field_set :: "(string \<times> 'v option) list"
  point_time :: int

type_synonym 'v influx = "(string \<times> (string \<times> string) list \<times> int) \<rightharpoonup> (string \<times> 'v option) list"

definition point_of_row :: "'v weather_row \<Rightarrow> 'v point" where
  "point_of_row row =
     \<lparr>measurement = ''weather'', tag_set = [(''source'', ''open_meteo'')],
      field_set = [(''temperature'', temperature row), (''pressure'', pressure row),
                (''wind_speed'', wind_speed row)],
      point_time = time row\<rparr>"

text \<open>
  Modelled from the spec: the InfluxDB client's \<^verbatim>\<open>write_api.write\<close> is not code of this
  repository. The spec's destination store supports
  "\<^verbatim>\<open>upsert(measurement, tags, fields, timestamp)\<close> batched writes": a point replaces
  what the bucket holds for its measurement, tags and time. Whether a write raises is a
  parameter of \<open>write_to_influx\<close>.
\<close>

definition upsert :: "'v point \<Rightarrow> 'v influx \<Rightarrow> 'v influx" where
  "upsert p store = store((measurement p, tag_set p, point_time p) \<mapsto> field_set p)"

definition write_api_write :: "'v point list \<Rightarrow> 'v influx \<Rightarrow> 'v influx" where
  "write_api_write record store = foldl (\<lambda>s p. upsert p s) store record"

definition write_to_influx ::
  "('v point list \<Rightarrow> bool) \<Rightarrow> 'v weather_row list option \<Rightarrow> 'v influx \<Rightarrow> 'v influx" where
  "write_to_influx write_raises df store =
     (case df of
        None \<Rightarrow> store
      | Some rows \<Rightarrow>
          if rows = [] then store
          else let points = map point_of_row rows in
            if write_raises points then store else write_api_write points store)"

text \<open>
  The start of \<^verbatim>\<open>__main__\<close> up to the call of \<^verbatim>\<open>initial_backfill\<close>, as the list of
  what it does. \<open>health i\<close> is what the \<open>i\<close>-th call of \<^verbatim>\<open>get_influx_client().health()\<close>
  does: it raises, or it returns a health check whose status is pass (\<open>True\<close>) or fail
  (\<open>False\<close>). The \<^verbatim>\<open>try\<close> block does not look at what the call returned: any return
  reaches \<^verbatim>\<open>break\<close>. The client is not code of this repository, so both ways of
  reporting a store that is down are inputs here.
\<close>

datatype probe = Raised | Returned bool

datatype event = Print string | Probe probe | Sleep nat | InitialBackfill

fun wait_for_influx :: "(nat \<Rightarrow> probe) \<Rightarrow> nat list \<Rightarrow> event list" where
  "wait_for_influx health [] = []"
| "wait_for_influx health (i # is) =
     (case health i of
        Returned status \<Rightarrow> [Probe (Returned status)]
      | Raised \<Rightarrow>
          [Probe Raised, Print ''Waiting for InfluxDB...'', Sleep 5] @ wait_for_influx health is)"

definition main_startup :: "(nat \<Rightarrow> probe) \<Rightarrow> event list" where
  "main_startup health =
     Print ''Weather Ingest Service Started...'' # wait_for_influx health [0..<10] @ [InitialBackfill]"

subsection \<open>Sample inputs\<close>

text \<open>
  A source that answers every request with one record stamped with the request's
  \<^verbatim>\<open>bis\<close>, except for the metrics in \<open>down\<close>, whose requests fail; \<open>locked\<close> are the
  files \<^verbatim>\<open>to_csv\<close> cannot write.
\<close>

definition sample_get :: "metric list \<Rightarrow> string \<Rightarrow> int \<Rightarrow> nat \<Rightarrow> real raw_record list response" where
  "sample_get down url bis tage =
     (if url \<in> set (map (\<lambda>m. BASE_URL @ ''/'' @ metric_name m) down) then RequestException
      else Json [\<lparr>t = bis, v = Some 1\<rparr>])"

definition sample_env :: "metric list \<Rightarrow> string list \<Rightarrow> real env" where
  "sample_env down locked = \<lparr>session_get = sample_get down, to_csv_raises = (\<lambda>f. f \<in> set locked)\<rparr>"

text \<open>
  A store that is down for good, reported in the one way or the other: every probe
  raises, or every probe returns a check with status fail.
\<close>

definition probe_always_raises :: "nat \<Rightarrow> probe" where
  "probe_always_raises i = Raised"

definition store_reports_fail :: "nat \<Rightarrow> probe" where
  "store_reports_fail i = Returned False"

definition sample_hourly :: "real hourly" where
  "sample_hourly =
     \<lparr>hourly_time = [0, 3600], temperature_2m = [None, Some 5],
      pressure_msl = [Some 1013, Some 1012], wind_speed_10m = [Some 3, None]\<rparr>"

text \<open>An InfluxDB write that always raises.\<close>

definition always_raises :: "real point list \<Rightarrow> bool" where
  "always_raises ps = True"

section \<open>Auxiliary definitions for the proofs\<close>

text \<open>
  The mask and the selection in one recursion, with the index values seen so far: the form
  the proofs about \<open>drop_duplicates_first\<close> go through.
\<close>

definition dedup_from :: "int list \<Rightarrow> 'v dataframe \<Rightarrow> 'v dataframe" where
  "dedup_from seen df =
     map snd (filter (\<lambda>(dup, row). \<not> dup) (zip (duplicated_first seen (map fst df)) df))"

text \<open>
  The loop over the list of its anchors, and what one window adds to the buffer of one
  metric. \<open>backfill_loop_windows\<close> and \<open>fetch_metrics_METRICS\<close> show that they describe
  \<open>backfill_loop\<close> and \<open>fetch_metrics\<close>.
\<close>

fun run_windows ::
  "'v env \<Rightarrow> int list \<Rightarrow> 'v buffer \<Rightarrow> 'v disk \<Rightarrow> (error \<times> 'v disk) + ('v buffer \<times> 'v disk)" where
  "run_windows env [] monthly_buffer disk = Inr (monthly_buffer, disk)"
| "run_windows env (a # as) monthly_buffer disk =
     (let buffer' = fetch_metrics env (get_timestamp_ms a) METRICS monthly_buffer
      in if length (buffer' Temp) \<ge> 4 then
           (case flush_buffer env buffer' disk of
              Inl e \<Rightarrow> Inl e
            | Inr disk' \<Rightarrow> run_windows env as empty_buffer disk')
         else run_windows env as buffer' disk)"

definition window_chunk :: "'v env \<Rightarrow> metric \<Rightarrow> int \<Rightarrow> 'v dataframe list" where
  "window_chunk env m bis_ts =
     (case fetch_chunk env (metric_name m) bis_ts 7 of
        None \<Rightarrow> []
      | Some raw_data \<Rightarrow> if raw_data = [] then [] else [process_data raw_data m])"

text \<open>Every chunk in every buffer has a row: the loop appends no empty frame.\<close>

definition chunks_nonempty :: "'v buffer \<Rightarrow> bool" where
  "chunks_nonempty buf = (\<forall>m. [] \<notin> set (buf m))"

section \<open>Properties\<close>

subsection \<open>Duplicates and order\<close>

lemma dedup_from_Nil: "dedup_from seen [] = []"
  by (simp add: dedup_from_def)

lemma dedup_from_Cons:
  "dedup_from seen (r # rs) =
     (if fst r \<in> set seen then dedup_from (fst r # seen) rs
      else r # dedup_from (fst r # seen) rs)"
  by (simp add: dedup_from_def)

lemma drop_duplicates_first_eq: "drop_duplicates_first df = dedup_from [] df"
  by (simp add: dedup_from_def drop_duplicates_first_def)

lemma set_dedup_from: "fst ` set (dedup_from seen df) = fst ` set df - set seen"
  by (induction df arbitrary: seen) (auto simp: dedup_from_Nil dedup_from_Cons)

lemma distinct_dedup_from: "distinct (map fst (dedup_from seen df))"
proof (induction df arbitrary: seen)
  case Nil
  show ?case by (simp add: dedup_from_Nil)
next
  case (Cons r rs)
  have "fst r \<notin> fst ` set (dedup_from (fst r # seen) rs)"
    by (simp add: set_dedup_from)
  with Cons show ?case by (simp add: dedup_from_Cons)
qed

lemma map_of_dedup_from:
  "map_of (dedup_from seen df) k = (if k \<in> set seen then None else map_of df k)"
proof (induction df arbitrary: seen)
  case Nil
  show ?case by (simp add: dedup_from_Nil)
next
  case (Cons r rs)
  show ?case by (cases r) (auto simp: dedup_from_Cons Cons)
qed

lemma map_of_sort_index:
  assumes "distinct (map fst df)"
  shows "map_of (sort_index df) = map_of df"
proof -
  have "distinct (map fst (sort_index df))"
    using assms  by (simp add: sort_index_def distinct_map)
  moreover have "set (sort_index df) = set df" by (simp add: sort_index_def)
  ultimately show ?thesis using assms by (simp add: map_of_inject_set)
qed

lemma sorted_sort_index: "sorted (map fst (sort_index df))"
  by (simp add: sort_index_def)

lemma distinct_combine: "distinct (map fst (combine_chunks cs))"
  using distinct_dedup_from[of "[]" "concat cs"]
  by (simp add: combine_chunks_def sort_index_def drop_duplicates_first_eq distinct_map)

lemma map_of_combine: "map_of (combine_chunks cs) = map_of (concat cs)"
  by (rule ext) (simp add: combine_chunks_def drop_duplicates_first_eq map_of_sort_index distinct_dedup_from map_of_dedup_from)

lemma set_combine: "fst ` set (combine_chunks cs) = fst ` set (concat cs)"
  by (simp add: combine_chunks_def sort_index_def drop_duplicates_first_eq set_dedup_from)

subsection \<open>The window loop\<close>

lemma window_anchors_empty: "stop_time \<ge> start_anchor \<Longrightarrow> window_anchors start_anchor stop_time = []"
  by (subst window_anchors.simps) simp

lemma window_anchors_step:
  "current_date > end_date \<Longrightarrow>
   window_anchors current_date end_date = current_date # window_anchors (current_date - WEEK) end_date"
  by (subst window_anchors.simps) simp

lemma backfill_loop_windows:
  "backfill_loop env current_date end_date buf disk =
   run_windows env (window_anchors current_date end_date) buf disk"
proof (induction env current_date end_date buf disk rule: backfill_loop.induct)
  case (1 env c e buf disk)
  show ?case
  proof (cases "c > e")
    case True
    show ?thesis
      apply (subst backfill_loop.simps)
      using True 1
      apply (simp add: window_anchors_step Let_def split: sum.splits)
      done
  next
    case False
    then show ?thesis
      by (subst backfill_loop.simps) (simp add: window_anchors_empty)
  qed
qed

lemma process_data_Nil_iff: "process_data raw m = [] \<longleftrightarrow> raw = []"
  by (simp add: process_data_def)

lemma fetch_metrics_at:
  "distinct ms \<Longrightarrow>
   fetch_metrics env bis_ts ms buf m =
     (if m \<in> set ms then buf m @ window_chunk env m bis_ts else buf m)"
proof (induction ms arbitrary: buf)
  case Nil
  show ?case by simp
next
  case (Cons k ks)
  then show ?case
    by (auto simp: window_chunk_def process_data_Nil_iff Let_def split: option.splits)
qed

lemma metric_in_METRICS: "m \<in> set METRICS"
  by (cases m) (simp_all add: METRICS_def)

lemma distinct_METRICS: "distinct METRICS"
  by (simp add: METRICS_def)

lemma fetch_metrics_METRICS:
  "fetch_metrics env bis_ts METRICS buf m = buf m @ window_chunk env m bis_ts"
  by (simp add: fetch_metrics_at distinct_METRICS metric_in_METRICS)

lemma length_window_anchors:
  "length (window_anchors current_date end_date) = nat (- ((end_date - current_date) div WEEK))"
proof (induction current_date end_date rule: window_anchors.induct)
  case (1 c e)
  show ?case
  proof (cases "c > e")
    case True
    have w: "WEEK > 0" by (simp add: WEEK_def DAY_def)
    have "e - (c - WEEK) = (e - c) + WEEK" by simp
    then have eq: "(e - (c - WEEK)) div WEEK = (e - c) div WEEK + 1"
      using w by (simp only: div_add_self2)
    have neg: "(e - c) div WEEK < 0"
      using True w by (simp add: div_neg_pos_less0)
    show ?thesis using 1[OF True] True eq neg
      by (simp add: window_anchors_step)
  next
    case False
    then have "(e - c) div WEEK \<ge> 0"
      by (simp add: WEEK_def DAY_def pos_imp_zdiv_nonneg_iff)
    with False show ?thesis by (simp add: window_anchors_empty)
  qed
qed

lemma year_windows: "length (window_anchors now (now - 365 * DAY)) = 53"
  by (simp add: length_window_anchors WEEK_def DAY_def)

lemma last_window_anchors:
  "current_date > end_date \<Longrightarrow>
   last (window_anchors current_date end_date) - WEEK \<le> end_date \<and> end_date < last (window_anchors current_date end_date)"
proof (induction current_date end_date rule: window_anchors.induct)
  case (1 c e)
  show ?case
  proof (cases "c - WEEK > e")
    case True
    then have "window_anchors (c - WEEK) e \<noteq> []" by (simp add: window_anchors_step)
    with 1 True show ?thesis by (simp add: window_anchors_step)
  next
    case False
    with 1(2) show ?thesis by (simp add: window_anchors_step window_anchors_empty)
  qed
qed

lemma run_windows_no_temp:
  assumes "\<And>a. a \<in> set as \<Longrightarrow> window_chunk env Temp (get_timestamp_ms a) = []"
    and "length (buf Temp) < 4"
  shows "run_windows env as buf disk =
     Inr (\<lambda>m. buf m @ concat (map (\<lambda>a. window_chunk env m (get_timestamp_ms a)) as), disk)"
  using assms
proof (induction as arbitrary: buf)
  case Nil
  show ?case by simp
next
  case (Cons a as)
  let ?b = "fetch_metrics env (get_timestamp_ms a) METRICS buf"
  have t: "?b Temp = buf Temp"
    using Cons.prems(1)[of a] by (simp add: fetch_metrics_METRICS)
  have "run_windows env (a # as) buf disk = run_windows env as ?b disk"
    using t Cons.prems(2) by (simp add: Let_def)
  also have "\<dots> = Inr (\<lambda>m. ?b m @ concat (map (\<lambda>a. window_chunk env m (get_timestamp_ms a)) as), disk)"
    using Cons.prems t by (intro Cons.IH) simp_all
  finally show ?case by (simp add: fetch_metrics_METRICS)
qed

lemma window_chunk_nonempty: "[] \<notin> set (window_chunk env m ts)"
  by (auto simp: window_chunk_def process_data_def split: option.splits)

lemma chunks_nonempty_fetch:
  "chunks_nonempty buf \<Longrightarrow> chunks_nonempty (fetch_metrics env ts METRICS buf)"
  by (simp add: chunks_nonempty_def fetch_metrics_METRICS window_chunk_nonempty)

lemma chunks_nonempty_empty: "chunks_nonempty empty_buffer"
  by (simp add: chunks_nonempty_def empty_buffer_def)

lemma combine_chunks_Nil_iff: "combine_chunks cs = [] \<longleftrightarrow> concat cs = []"
proof -
  have "fst ` set (combine_chunks cs) = {} \<longleftrightarrow> fst ` set (concat cs) = {}"
    by (simp only: set_combine)
  then show ?thesis by simp
qed

lemma flush_metric_ok:
  assumes "\<And>p. \<not> to_csv_raises env p" and "[] \<notin> set cs"
  shows "\<exists>d. flush_metric env m cs disk = Inr d"
proof (cases cs)
  case Nil
  then show ?thesis by (simp add: flush_metric_def)
next
  case (Cons c cs')
  with assms(2) have "concat cs \<noteq> []" by auto
  then have "combine_chunks cs \<noteq> []" by (simp add: combine_chunks_Nil_iff)
  with assms(1) Cons show ?thesis by (simp add: flush_metric_def Let_def)
qed

lemma flush_metrics_ok:
  assumes "\<And>p. \<not> to_csv_raises env p" and "chunks_nonempty buf"
  shows "\<exists>d. flush_metrics env ms buf disk = Inr d"
proof (induction ms arbitrary: disk)
  case Nil
  show ?case by simp
next
  case (Cons m ms)
  from assms obtain d where "flush_metric env m (buf m) disk = Inr d"
    using flush_metric_ok[of env "buf m" m disk] by (auto simp: chunks_nonempty_def)
  with Cons show ?case by simp
qed

lemma flush_buffer_ok:
  "(\<And>p. \<not> to_csv_raises env p) \<Longrightarrow> chunks_nonempty buf \<Longrightarrow> \<exists>d. flush_buffer env buf disk = Inr d"
  by (simp add: flush_buffer_def flush_metrics_ok)

lemma run_windows_ok:
  assumes "\<And>p. \<not> to_csv_raises env p" and "chunks_nonempty buf"
  shows "\<exists>b d. run_windows env as buf disk = Inr (b, d) \<and> chunks_nonempty b"
  using assms(2)
proof (induction as arbitrary: buf disk)
  case Nil
  then show ?case by simp
next
  case (Cons a as)
  let ?b = "fetch_metrics env (get_timestamp_ms a) METRICS buf"
  have ne: "chunks_nonempty ?b" using Cons.prems by (rule chunks_nonempty_fetch)
  show ?case
  proof (cases "length (?b Temp) \<ge> 4")
    case True
    from flush_buffer_ok[OF assms(1) ne] obtain d where "flush_buffer env ?b disk = Inr d"
      by blast
    with True Cons.IH[OF chunks_nonempty_empty, of d] show ?thesis by (simp add: Let_def)
  next
    case False
    with Cons.IH[OF ne, of disk] show ?thesis by (simp add: Let_def)
  qed
qed

lemma backfill_history_ok:
  assumes "\<And>p. \<not> to_csv_raises env p"
  shows "\<exists>d. backfill_history env now start_year disk = Inr d"
proof -
  from run_windows_ok[OF assms chunks_nonempty_empty]
  obtain b d where r: "run_windows env (window_anchors now (datetime_jan1 start_year)) empty_buffer disk = Inr (b, d)"
    and ne: "chunks_nonempty b" by blast
  from flush_buffer_ok[OF assms ne] obtain d' where "flush_buffer env b d = Inr d'" by blast
  with r show ?thesis by (simp add: backfill_history_def backfill_loop_windows)
qed

lemma flush_metric_shape:
  "\<exists>W r. \<forall>disk. flush_metric env m cs disk =
      (case r of None \<Rightarrow> Inr (disk ++ W) | Some e \<Rightarrow> Inl (e, disk ++ W))"
proof -
  consider "cs = []" | "cs \<noteq> []" "combine_chunks cs = []"
    | "cs \<noteq> []" "combine_chunks cs \<noteq> []" "to_csv_raises env (csv_filename m (combine_chunks cs))"
    | "cs \<noteq> []" "combine_chunks cs \<noteq> []" "\<not> to_csv_raises env (csv_filename m (combine_chunks cs))"
    by blast
  then show ?thesis
  proof cases
    case 1
    then have "\<forall>disk. flush_metric env m cs disk = (case None of None \<Rightarrow> Inr (disk ++ Map.empty) | Some e \<Rightarrow> Inl (e, disk ++ Map.empty))"
      by (simp add: flush_metric_def)
    then show ?thesis by blast
  next
    case 2
    then have "\<forall>disk. flush_metric env m cs disk = (case Some IndexError of None \<Rightarrow> Inr (disk ++ Map.empty) | Some e \<Rightarrow> Inl (e, disk ++ Map.empty))"
      by (simp add: flush_metric_def)
    then show ?thesis by blast
  next
    case 3
    then have "\<forall>disk. flush_metric env m cs disk = (case Some OSError of None \<Rightarrow> Inr (disk ++ Map.empty) | Some e \<Rightarrow> Inl (e, disk ++ Map.empty))"
      by (simp add: flush_metric_def)
    then show ?thesis by blast
  next
    case 4
    then have "\<forall>disk. flush_metric env m cs disk =
       (case None of None \<Rightarrow> Inr (disk ++ [csv_filename m (combine_chunks cs) \<mapsto> combine_chunks cs])
        | Some e \<Rightarrow> Inl (e, disk ++ [csv_filename m (combine_chunks cs) \<mapsto> combine_chunks cs]))"
      by (simp add: flush_metric_def Let_def)
    then show ?thesis by blast
  qed
qed

lemma flush_metrics_shape:
  "\<exists>W r. \<forall>disk. flush_metrics env ms buf disk =
      (case r of None \<Rightarrow> Inr (disk ++ W) | Some e \<Rightarrow> Inl (e, disk ++ W))"
proof (induction ms)
  case Nil
  have "\<forall>disk. flush_metrics env [] buf disk =
      (case None of None \<Rightarrow> Inr (disk ++ Map.empty) | Some e \<Rightarrow> Inl (e, disk ++ Map.empty))"
    by simp
  then show ?case by blast
next
  case (Cons m ms)
  from flush_metric_shape[of env m "buf m"] obtain W1 r1 where
    h: "\<And>disk. flush_metric env m (buf m) disk =
      (case r1 of None \<Rightarrow> Inr (disk ++ W1) | Some e \<Rightarrow> Inl (e, disk ++ W1))" by blast
  from Cons obtain W2 r2 where
    t: "\<And>disk. flush_metrics env ms buf disk =
      (case r2 of None \<Rightarrow> Inr (disk ++ W2) | Some e \<Rightarrow> Inl (e, disk ++ W2))" by blast
  show ?case
  proof (cases r1)
    case None
    then have "\<forall>disk. flush_metrics env (m # ms) buf disk =
      (case r2 of None \<Rightarrow> Inr (disk ++ (W1 ++ W2)) | Some e \<Rightarrow> Inl (e, disk ++ (W1 ++ W2)))"
      by (simp add: h t split: option.splits)
    then show ?thesis by blast
  next
    case (Some e1)
    then have "\<forall>disk. flush_metrics env (m # ms) buf disk =
      (case Some e1 of None \<Rightarrow> Inr (disk ++ W1) | Some e \<Rightarrow> Inl (e, disk ++ W1))"
      by (simp add: h)
    then show ?thesis by blast
  qed
qed

lemma flush_metrics_twice:
  "flush_metrics env ms buf (disk_of (flush_metrics env ms buf disk)) = flush_metrics env ms buf disk"
proof -
  from flush_metrics_shape[of env ms buf] obtain W r where
    h: "\<And>disk. flush_metrics env ms buf disk =
      (case r of None \<Rightarrow> Inr (disk ++ W) | Some e \<Rightarrow> Inl (e, disk ++ W))" by blast
  have "disk ++ W ++ W = disk ++ W"
    by (rule ext) (simp add: map_add_def split: option.splits)
  then show ?thesis by (cases r) (simp_all add: h)
qed

lemma last_sorted_Max:
  "sorted xs \<Longrightarrow> xs \<noteq> [] \<Longrightarrow> last xs = Max (set (xs :: int list))"
proof (induction xs)
  case Nil
  then show ?case by simp
next
  case (Cons x xs)
  show ?case
  proof (cases "xs = []")
    case True
    then show ?thesis by simp
  next
    case False
    with Cons have "last xs = Max (set xs)" by simp
    moreover have "x \<le> Max (set xs)" using Cons.prems False
      by (metis List.finite_set Max_ge last_in_set calculation order_trans sorted_simps(2))
    ultimately show ?thesis using False by (simp add: max_def)
  qed
qed

lemma last_combine_chunks:
  assumes "concat cs \<noteq> []"
  shows "fst (last (combine_chunks cs)) = Max (fst ` set (concat cs))"
proof -
  have ne: "combine_chunks cs \<noteq> []" using assms by (simp add: combine_chunks_Nil_iff)
  have "sorted (map fst (combine_chunks cs))"
    by (simp add: combine_chunks_def sorted_sort_index)
  then have "last (map fst (combine_chunks cs)) = Max (set (map fst (combine_chunks cs)))"
    using ne by (intro last_sorted_Max) simp_all
  then show ?thesis using ne by (simp add: last_map set_combine)
qed

subsection \<open>The ingest service\<close>

lemma write_api_write_twice: "write_api_write ps (write_api_write ps store) = write_api_write ps store"
proof -
  have shape: "\<exists>W. \<forall>store. write_api_write ps store = store ++ W"
  proof (induction ps rule: rev_induct)
    case Nil
    have "\<forall>store. write_api_write [] store = store ++ Map.empty" by (simp add: write_api_write_def)
    then show ?case by blast
  next
    case (snoc p ps)
    then obtain W where w: "\<And>store. write_api_write ps store = store ++ W" by blast
    have "\<forall>store. write_api_write (ps @ [p]) store = store ++ (W ++ [(measurement p, tag_set p, point_time p) \<mapsto> field_set p])"
      using w by (simp add: write_api_write_def upsert_def)
    then show ?case by blast
  qed
  then obtain W where w: "\<And>store. write_api_write ps store = store ++ W" by blast
  have "store ++ W ++ W = store ++ W"
    by (rule ext) (simp add: map_add_def split: option.splits)
  then show ?thesis by (simp add: w)
qed

lemma write_to_influx_twice:
  "write_to_influx wr df (write_to_influx wr df store) = write_to_influx wr df store"
  by (simp add: write_to_influx_def write_api_write_twice Let_def split: option.splits)

lemma wait_last: "last (main_startup health) = InitialBackfill"
  by (simp add: main_startup_def)

lemma wait_count_le: "count_list (wait_for_influx health is) (Probe Raised) \<le> length is"
  by (induction "is") (auto split: probe.splits)

lemma wait_sleeps:
  "count_list (wait_for_influx health is) (Sleep 5) = count_list (wait_for_influx health is) (Probe Raised)"
  by (induction "is") (auto split: probe.splits)

subsection \<open>Evaluation at the sample inputs\<close>

lemma strftime_samples:
  "strftime_Ymd 0 = ''1970-01-01''"
  "strftime_Ymd 86400000 = ''1970-01-02''"
  "strftime_Ymd 3024000000 = ''1970-02-05''"
  "strftime_Ymd 1735689600000 = ''2025-01-01''"
  "strftime_Ymd 1735693200000 = ''2025-01-01''"
  by code_simp+


lemmas eval_combine = combine_chunks_def sort_index_def drop_duplicates_first_def
lemmas eval_flush = flush_buffer_def METRICS_def flush_metric_def csv_filename_def OUTPUT_DIR_def
lemmas eval_env = sample_env_def sample_get_def

subsection \<open>The loop without a temp chunk, and one step of it\<close>

lemma foldl_fetch_metrics:
  "foldl (\<lambda>b a. fetch_metrics env (get_timestamp_ms a) METRICS b) buf as m =
     buf m @ concat (map (\<lambda>a. window_chunk env m (get_timestamp_ms a)) as)"
  by (induction as arbitrary: buf) (simp_all add: fetch_metrics_METRICS)

lemma run_windows_no_flush:
  assumes "\<And>a. a \<in> set as \<Longrightarrow> window_chunk env Temp (get_timestamp_ms a) = []"
    and "length (buf Temp) < 4"
  shows "run_windows env as buf disk =
     Inr (foldl (\<lambda>b a. fetch_metrics env (get_timestamp_ms a) METRICS b) buf as, disk)"
proof -
  have "foldl (\<lambda>b a. fetch_metrics env (get_timestamp_ms a) METRICS b) buf as =
        (\<lambda>m. buf m @ concat (map (\<lambda>a. window_chunk env m (get_timestamp_ms a)) as))"
    by (rule ext) (rule foldl_fetch_metrics)
  then show ?thesis using run_windows_no_temp[of as env buf disk] assms by simp
qed

lemma window_chunk_empty_iff:
  "window_chunk env m bis_ts = [] \<longleftrightarrow>
     fetch_chunk env (metric_name m) bis_ts 7 = None \<or> fetch_chunk env (metric_name m) bis_ts 7 = Some []"
  by (auto simp: window_chunk_def split: option.splits)

lemma length_concat_window_chunks:
  "length (concat (map (\<lambda>a. window_chunk env m (get_timestamp_ms a)) as)) =
   length (filter (\<lambda>a. window_chunk env m (get_timestamp_ms a) \<noteq> []) as)"
  by (induction as) (auto simp: window_chunk_def split: option.splits)

lemma backfill_loop_step:
  "current_date > end_date \<Longrightarrow>
   backfill_loop env current_date end_date monthly_buffer disk =
     (let buffer' = fetch_metrics env (get_timestamp_ms current_date) METRICS monthly_buffer
      in if 4 \<le> length (buffer' Temp) then
           (case flush_buffer env buffer' disk of
              Inl e \<Rightarrow> Inl e
            | Inr disk' \<Rightarrow> backfill_loop env (current_date - WEEK) end_date empty_buffer disk')
         else backfill_loop env (current_date - WEEK) end_date buffer' disk)"
  by (subst backfill_loop.simps) simp

subsection \<open>Runs at the sample inputs\<close>

lemma metric_name_inj: "metric_name m = metric_name m' \<longleftrightarrow> m = m'"
  by (cases m; cases m') simp_all

lemma fetch_chunk_sample:
  "fetch_chunk (sample_env down locked) name bis_ts days =
     (if name \<in> metric_name ` set down then None else Some [\<lparr>t = bis_ts, v = Some 1\<rparr>])"
  by (auto simp: fetch_chunk_def sample_env_def sample_get_def)

lemma window_chunk_sample:
  "window_chunk (sample_env down locked) m bis_ts =
     (if m \<in> set down then [] else [[(bis_ts, Some 1)]])"
  by (auto simp: window_chunk_def fetch_chunk_sample process_data_def metric_name_inj)

lemma fetch_metrics_sample:
  "fetch_metrics (sample_env down locked) bis_ts METRICS buf m =
     buf m @ (if m \<in> set down then [] else [[(bis_ts, Some 1)]])"
  by (simp add: fetch_metrics_METRICS window_chunk_sample)

lemma to_csv_raises_sample: "to_csv_raises (sample_env down locked) f \<longleftrightarrow> f \<in> set locked"
  by (simp add: sample_env_def)

lemma five_weeks: "window_anchors 3024000000000 0 =
    [3024000000000, 2419200000000, 1814400000000, 1209600000000, 604800000000]"
  by (simp add: window_anchors_step window_anchors_empty WEEK_def DAY_def)

lemma more_strftime_samples:
  "strftime_Ymd 604800000 = ''1970-01-08''"
  by code_simp

lemma jan1_1970: "datetime_jan1 1970 = 0"
  by code_simp

lemma run4:
  "run_windows (sample_env [] locked)
      [3024000000000, 2419200000000, 1814400000000, 1209600000000, 604800000000] empty_buffer disk
   = (case flush_buffer (sample_env [] locked)
            (\<lambda>m. [[(3024000000, Some 1)], [(2419200000, Some 1)], [(1814400000, Some 1)], [(1209600000, Some 1)]]) disk of
        Inl e \<Rightarrow> Inl e
      | Inr disk' \<Rightarrow> Inr (\<lambda>m. [[(604800000, Some 1)]], disk'))"
proof -
  have b: "fetch_metrics (sample_env [] locked) 1209600000 METRICS
           (fetch_metrics (sample_env [] locked) 1814400000 METRICS
           (fetch_metrics (sample_env [] locked) 2419200000 METRICS
           (fetch_metrics (sample_env [] locked) 3024000000 METRICS empty_buffer)))
        = (\<lambda>m. [[(3024000000, Some 1)], [(2419200000, Some 1)], [(1814400000, Some 1)], [(1209600000, Some 1)]])"
    by (rule ext) (simp add: fetch_metrics_sample empty_buffer_def)
  have c: "fetch_metrics (sample_env [] locked) 604800000 METRICS empty_buffer = (\<lambda>m. [[(604800000, Some 1)]])"
    by (rule ext) (simp add: fetch_metrics_sample empty_buffer_def)
  show ?thesis
    by (simp add: get_timestamp_ms_def fetch_metrics_sample Let_def b c split: sum.splits)
       (simp add: empty_buffer_def)
qed

lemma combine_four:
  "combine_chunks [[(3024000000, Some 1)], [(2419200000, Some 1)], [(1814400000, Some 1)], [(1209600000, Some (1::real))]]
   = [(1209600000, Some 1), (1814400000, Some 1), (2419200000, Some 1), (3024000000, Some 1)]"
  by (simp add: eval_combine)

lemma combine_five:
  "combine_chunks [[(3024000000, Some 1)], [(2419200000, Some 1)], [(1814400000, Some 1)],
      [(1209600000, Some 1)], [(604800000, Some (1::real))]]
   = [(604800000, Some 1), (1209600000, Some 1), (1814400000, Some 1), (2419200000, Some 1), (3024000000, Some 1)]"
  by (simp add: eval_combine)

lemma combine_one:
  "combine_chunks [[(604800000, Some (1::real))]] = [(604800000, Some 1)]"
  by (simp add: eval_combine)

lemma flush_metric_four:
  "flush_metric (sample_env down locked) m
     [[(3024000000, Some 1)], [(2419200000, Some 1)], [(1814400000, Some 1)], [(1209600000, Some 1)]] disk
   = (if ''data_lake/'' @ metric_name m @ ''_1970-02-05.csv'' \<in> set locked then Inl (OSError, disk)
      else Inr (disk(''data_lake/'' @ metric_name m @ ''_1970-02-05.csv'' \<mapsto>
        [(1209600000, Some 1), (1814400000, Some 1), (2419200000, Some 1), (3024000000, Some 1)])))"
  by (simp add: flush_metric_def combine_four csv_filename_def OUTPUT_DIR_def strftime_samples
        to_csv_raises_sample)

lemma flush_metric_five:
  "flush_metric (sample_env down locked) m
     [[(3024000000, Some 1)], [(2419200000, Some 1)], [(1814400000, Some 1)], [(1209600000, Some 1)],
      [(604800000, Some 1)]] disk
   = (if ''data_lake/'' @ metric_name m @ ''_1970-02-05.csv'' \<in> set locked then Inl (OSError, disk)
      else Inr (disk(''data_lake/'' @ metric_name m @ ''_1970-02-05.csv'' \<mapsto>
        [(604800000, Some 1), (1209600000, Some 1), (1814400000, Some 1), (2419200000, Some 1),
         (3024000000, Some 1)])))"
  by (simp add: flush_metric_def combine_five csv_filename_def OUTPUT_DIR_def strftime_samples
        to_csv_raises_sample)

lemma flush_metric_one:
  "flush_metric (sample_env down locked) m [[(604800000, Some 1)]] disk
   = (if ''data_lake/'' @ metric_name m @ ''_1970-01-08.csv'' \<in> set locked then Inl (OSError, disk)
      else Inr (disk(''data_lake/'' @ metric_name m @ ''_1970-01-08.csv'' \<mapsto> [(604800000, Some 1)])))"
  by (simp add: flush_metric_def combine_one csv_filename_def OUTPUT_DIR_def strftime_samples
        more_strftime_samples to_csv_raises_sample)

lemma flush_metric_none: "flush_metric env m [] disk = Inr disk"
  by (simp add: flush_metric_def)

lemma history_five_weeks:
  "backfill_history (sample_env [] locked) 3024000000000 1970 disk
   = (case flush_buffer (sample_env [] locked)
            (\<lambda>m. [[(3024000000, Some 1)], [(2419200000, Some 1)], [(1814400000, Some 1)], [(1209600000, Some 1)]]) disk of
        Inl e \<Rightarrow> Inl e
      | Inr disk' \<Rightarrow> flush_buffer (sample_env [] locked) (\<lambda>m. [[(604800000, Some 1)]]) disk')"
  by (simp only: backfill_history_def backfill_loop_windows five_weeks jan1_1970 run4)
     (simp split: sum.splits)


lemma flush_buffer_unfold:
  "flush_buffer env b d =
     (case flush_metric env Temp (b Temp) d of Inl e \<Rightarrow> Inl e | Inr d1 \<Rightarrow>
      case flush_metric env Wind (b Wind) d1 of Inl e \<Rightarrow> Inl e | Inr d2 \<Rightarrow>
      case flush_metric env Rain (b Rain) d2 of Inl e \<Rightarrow> Inl e | Inr d3 \<Rightarrow>
      case flush_metric env Press (b Press) d3 of Inl e \<Rightarrow> Inl e | Inr d4 \<Rightarrow>
      flush_metric env Sun (b Sun) d4)"
  by (simp add: flush_buffer_def METRICS_def split: sum.splits)

subsection \<open>A write that raises, and the loop in two parts\<close>

lemma flush_metric_raises:
  assumes "concat data_list \<noteq> []"
    and "to_csv_raises env (csv_filename m (combine_chunks data_list))"
  shows "flush_metric env m data_list disk = Inl (OSError, disk)"
proof -
  have "data_list \<noteq> []" using assms(1) by auto
  moreover have "combine_chunks data_list \<noteq> []"
    using assms(1) by (simp add: combine_chunks_Nil_iff)
  ultimately show ?thesis using assms(2) by (simp add: flush_metric_def Let_def)
qed

lemma flush_metrics_append:
  "flush_metrics env (pre @ post) buffer disk =
     (case flush_metrics env pre buffer disk of
        Inl e \<Rightarrow> Inl e
      | Inr disk1 \<Rightarrow> flush_metrics env post buffer disk1)"
  by (induction pre arbitrary: disk) (simp_all split: sum.splits)

lemma flush_metrics_raises:
  assumes "flush_metrics env pre buffer disk = Inr disk1"
    and "concat (buffer m) \<noteq> []"
    and "to_csv_raises env (csv_filename m (combine_chunks (buffer m)))"
  shows "flush_metrics env (pre @ m # post) buffer disk = Inl (OSError, disk1)"
  using assms by (simp add: flush_metrics_append flush_metric_raises)

lemma flush_buffer_raises:
  assumes "METRICS = pre @ m # post"
    and "flush_metrics env pre buffer disk = Inr disk1"
    and "concat (buffer m) \<noteq> []"
    and "to_csv_raises env (csv_filename m (combine_chunks (buffer m)))"
  shows "flush_buffer env buffer disk = Inl (OSError, disk1)"
  using flush_metrics_raises[OF assms(2,3,4), of post] assms(1) by (simp add: flush_buffer_def)

lemma run_windows_append:
  "run_windows env (as @ bs) buf disk =
     (case run_windows env as buf disk of
        Inl e \<Rightarrow> Inl e
      | Inr (b, d) \<Rightarrow> run_windows env bs b d)"
  by (induction as arbitrary: buf disk) (simp_all add: Let_def split: sum.splits)

lemma window_anchors_split:
  "c \<le> now \<Longrightarrow> (now - c) mod WEEK = 0 \<Longrightarrow> end_date \<le> c \<Longrightarrow>
   window_anchors now end_date = window_anchors now c @ window_anchors c end_date"
proof (induction now c rule: window_anchors.induct)
  case (1 n c)
  show ?case
  proof (cases "n > c")
    case True
    have "WEEK dvd (n - c)" using 1(3) by (simp add: dvd_eq_mod_eq_0)
    then have "WEEK \<le> n - c" using True by (intro zdvd_imp_le) simp_all
    then have le: "c \<le> n - WEEK" by simp
    have "n - WEEK - c = (n - c) - WEEK" by simp
    then have md: "(n - WEEK - c) mod WEEK = 0" using 1(3) by (simp only: minus_mod_self2)
    from 1(1)[OF True le md 1(4)] True 1(4) show ?thesis
      by (simp add: window_anchors_step)
  next
    case False
    with 1(2) have "n = c" by simp
    then show ?thesis by (simp add: window_anchors_empty)
  qed
qed

lemma backfill_loop_split:
  assumes "c \<le> now" and "(now - c) mod WEEK = 0" and "end_date \<le> c"
  shows "backfill_loop env now end_date buf disk =
     (case backfill_loop env now c buf disk of
        Inl e \<Rightarrow> Inl e
      | Inr (b, d) \<Rightarrow> backfill_loop env c end_date b d)"
  by (simp add: backfill_loop_windows window_anchors_split[OF assms] run_windows_append
        split: sum.splits)

subsection \<open>More runs at the sample inputs\<close>

lemma one_week: "window_anchors 604800000000 0 = [604800000000]"
  by (simp add: window_anchors_step window_anchors_empty WEEK_def DAY_def)

lemma three_weeks_back:
  "window_anchors 3024000000000 1209600000000 = [3024000000000, 2419200000000, 1814400000000]"
  by (simp add: window_anchors_step window_anchors_empty WEEK_def DAY_def)

lemma run3:
  "run_windows (sample_env [] locked) [3024000000000, 2419200000000, 1814400000000] empty_buffer disk
   = Inr (\<lambda>m. [[(3024000000, Some 1)], [(2419200000, Some 1)], [(1814400000, Some 1)]], disk)"
proof -
  have b: "fetch_metrics (sample_env [] locked) 1814400000 METRICS
           (fetch_metrics (sample_env [] locked) 2419200000 METRICS
           (fetch_metrics (sample_env [] locked) 3024000000 METRICS empty_buffer))
        = (\<lambda>m. [[(3024000000, Some 1)], [(2419200000, Some 1)], [(1814400000, Some 1)]])"
    by (rule ext) (simp add: fetch_metrics_sample empty_buffer_def)
  show ?thesis
    by (simp add: get_timestamp_ms_def fetch_metrics_sample Let_def b)
       (simp add: empty_buffer_def)
qed

lemma run1:
  "run_windows (sample_env [] locked) [604800000000] empty_buffer disk
   = Inr (\<lambda>m. [[(604800000, Some 1)]], disk)"
proof -
  have c: "fetch_metrics (sample_env [] locked) 604800000 METRICS empty_buffer = (\<lambda>m. [[(604800000, Some 1)]])"
    by (rule ext) (simp add: fetch_metrics_sample empty_buffer_def)
  show ?thesis
    by (simp add: get_timestamp_ms_def Let_def c)
qed

lemma csv_filename_samples:
  "csv_filename m [(1209600000, Some 1), (1814400000, Some 1), (2419200000, Some 1), (3024000000, Some (1::real))]
     = ''data_lake/'' @ metric_name m @ ''_1970-02-05.csv''"
  "csv_filename m [(604800000, Some (1::real))] = ''data_lake/'' @ metric_name m @ ''_1970-01-08.csv''"
  by (simp_all add: csv_filename_def OUTPUT_DIR_def strftime_samples more_strftime_samples)

lemma run4_wind_down:
  "run_windows (sample_env [Wind] locked)
      [3024000000000, 2419200000000, 1814400000000, 1209600000000, 604800000000] empty_buffer disk
   = (case flush_buffer (sample_env [Wind] locked)
            (\<lambda>m. if m = Wind then []
                  else [[(3024000000, Some 1)], [(2419200000, Some 1)], [(1814400000, Some 1)],
                        [(1209600000, Some 1)]]) disk of
        Inl e \<Rightarrow> Inl e
      | Inr disk' \<Rightarrow> Inr (\<lambda>m. if m = Wind then [] else [[(604800000, Some 1)]], disk'))"
proof -
  have b: "fetch_metrics (sample_env [Wind] locked) 1209600000 METRICS
           (fetch_metrics (sample_env [Wind] locked) 1814400000 METRICS
           (fetch_metrics (sample_env [Wind] locked) 2419200000 METRICS
           (fetch_metrics (sample_env [Wind] locked) 3024000000 METRICS empty_buffer)))
        = (\<lambda>m. if m = Wind then []
                  else [[(3024000000, Some 1)], [(2419200000, Some 1)], [(1814400000, Some 1)],
                        [(1209600000, Some 1)]])"
    by (rule ext) (simp add: fetch_metrics_sample empty_buffer_def)
  have c: "fetch_metrics (sample_env [Wind] locked) 604800000 METRICS empty_buffer
        = (\<lambda>m. if m = Wind then [] else [[(604800000, Some 1)]])"
    by (rule ext) (simp add: fetch_metrics_sample empty_buffer_def)
  show ?thesis
    by (simp add: get_timestamp_ms_def fetch_metrics_sample Let_def b c split: sum.splits)
       (simp add: empty_buffer_def)
qed

lemma history_wind_down:
  "backfill_history (sample_env [Wind] locked) 3024000000000 1970 disk
   = (case flush_buffer (sample_env [Wind] locked)
            (\<lambda>m. if m = Wind then []
                  else [[(3024000000, Some 1)], [(2419200000, Some 1)], [(1814400000, Some 1)],
                        [(1209600000, Some 1)]]) disk of
        Inl e \<Rightarrow> Inl e
      | Inr disk' \<Rightarrow>
          flush_buffer (sample_env [Wind] locked)
            (\<lambda>m. if m = Wind then [] else [[(604800000, Some 1)]]) disk')"
  by (simp only: backfill_history_def backfill_loop_windows five_weeks jan1_1970 run4_wind_down)
     (simp split: sum.splits)

section \<open>The claims\<close>

text \<open>
  Claim C1, as the code has it. When a timestamp stands in several buffered chunks, the
  flush keeps one row for it, and that row comes from the first chunk in buffer order
  that has the timestamp (the chunk fetched earliest), the first such row of that chunk:
  \<^verbatim>\<open>duplicated(keep="first")\<close>. No other value for the timestamp is in the flushed
  rows. The scraper keeps no divergence counter.
\<close>

theorem flush_keeps_first_fetched:
  assumes "data_list = earlier @ c # later"
    and "ts \<notin> fst ` set (concat earlier)"
    and "map_of c ts = Some a"
  shows "(ts, a) \<in> set (combine_chunks data_list) \<and>
         (\<forall>b. (ts, b) \<in> set (combine_chunks data_list) \<longrightarrow> b = a)"
proof -
  have "map_of (concat earlier) ts = None"
    using assms(2) by (simp add: map_of_eq_None_iff)
  then have "map_of (concat data_list) ts = Some a"
    using assms(1,3) by (simp add: map_add_def)
  then have m: "map_of (combine_chunks data_list) ts = Some a"
    by (simp add: map_of_combine)
  have "b = a" if "(ts, b) \<in> set (combine_chunks data_list)" for b
    using map_of_is_SomeI[OF distinct_combine that] m by simp
  then show ?thesis
    using map_of_SomeD[OF m] by blast
qed

text \<open>
  Claim C1, the theorem at two chunks that carry 5.0 and then 5.2 for one timestamp.
\<close>

theorem flush_keeps_first_fetched_witness:
  "(1735689600000, Some 5) \<in> set (combine_chunks [[(1735689600000, Some (5::real))], [(1735689600000, Some (26 / 5))]])
   \<and> (1735689600000, Some (26 / 5)) \<notin> set (combine_chunks [[(1735689600000, Some (5::real))], [(1735689600000, Some (26 / 5))]])"
  using flush_keeps_first_fetched[of "[[(1735689600000, Some (5::real))], [(1735689600000, Some (26 / 5))]]"
      "[]" "[(1735689600000, Some 5)]" "[[(1735689600000, Some (26 / 5))]]" 1735689600000 "Some 5"]
  by auto

text \<open>
  Claim C1 as stated fails: with 5.0 buffered first and 5.2 fetched later for the same
  timestamp, the file written by the flush holds 5.0, not the incoming 5.2.
\<close>

theorem flush_keeps_incoming_counterexample:
  "flush_buffer (sample_env [] [])
     (empty_buffer(Temp := [[(1735689600000, Some 5)], [(1735689600000, Some (26 / 5))]]))
     Map.empty
   = Inr [''data_lake/temp_2025-01-01.csv'' \<mapsto> [(1735689600000, Some 5)]]"
  by (simp add: eval_flush eval_combine strftime_samples eval_env empty_buffer_def)

text \<open>
  Claim C2. The rows a flush writes for a metric are sorted by ascending timestamp, no
  timestamp stands twice, and every buffered timestamp is there; they are what
  \<open>flush_metric\<close> stores in the metric's file. Two windows covering \<open>[0,7]\<close> and
  \<open>[5,12]\<close> with the same values where they overlap give the 13 timestamps 0 to 12.
\<close>

theorem flushed_rows_sorted_distinct:
  "sorted (map fst (combine_chunks data_list))
   \<and> distinct (map fst (combine_chunks data_list))
   \<and> fst ` set (combine_chunks data_list) = fst ` set (concat data_list)
   \<and> (data_list \<noteq> [] \<and> flush_metric env m data_list disk = Inr disk'
        \<longrightarrow> disk' (csv_filename m (combine_chunks data_list)) = Some (combine_chunks data_list))
   \<and> map fst (combine_chunks [map (\<lambda>i. (i, f i)) [0..7], map (\<lambda>i. (i, f i)) [5..12]]) = [0..12]
   \<and> length (combine_chunks [map (\<lambda>i. (i, f i)) [0..7], map (\<lambda>i. (i, f i)) [5..12]]) = 13"
proof -
  have a: "sorted (map fst (combine_chunks data_list))"
    by (simp add: combine_chunks_def sorted_sort_index)
  have b: "data_list \<noteq> [] \<and> flush_metric env m data_list disk = Inr disk'
        \<longrightarrow> disk' (csv_filename m (combine_chunks data_list)) = Some (combine_chunks data_list)"
    by (auto simp: flush_metric_def Let_def split: if_splits)
  have c: "map fst (combine_chunks [map (\<lambda>i. (i, f i)) [0..7], map (\<lambda>i. (i, f i)) [5..12]]) = [0..12]"
    by (simp add: eval_combine upto.simps)
  have d: "length (combine_chunks [map (\<lambda>i. (i, f i)) [0..7], map (\<lambda>i. (i, f i)) [5..12]]) = 13"
    by (simp add: eval_combine upto.simps)
  show ?thesis using a b c d distinct_combine[of data_list] set_combine[of data_list] by blast
qed

text \<open>
  Claim C2, the theorem at a flush of two chunks, unsorted and overlapping at timestamp 0.
\<close>

theorem flushed_rows_sorted_distinct_witness:
  "flush_metric (sample_env [] []) Temp [[(86400000, Some 2), (0, Some 1)], [(0, Some 3)]] Map.empty
     = Inr [''data_lake/temp_1970-01-02.csv'' \<mapsto> [(0, Some 1), (86400000, Some 2)]]
   \<and> combine_chunks [[(86400000, Some 2), (0, Some 1)], [(0, Some (3::real))]] = [(0, Some 1), (86400000, Some 2)]
   \<and> sorted (map fst (combine_chunks [[(86400000, Some 2), (0, Some 1)], [(0, Some (3::real))]]))"
  using flushed_rows_sorted_distinct[of "[[(86400000, Some 2), (0, Some 1)], [(0, Some (3::real))]]"
     "sample_env [] []" Temp Map.empty "[''data_lake/temp_1970-01-02.csv'' \<mapsto> [(0, Some 1), (86400000, Some 2)]]"]
  by (simp add: flush_metric_def csv_filename_def OUTPUT_DIR_def eval_combine strftime_samples eval_env)

text \<open>
  Claim C3. The backward planner is a total function (its termination is proved with the
  definition of \<open>window_anchors\<close>), and it yields the ceiling of
  \<open>(start_anchor - stop_time) / WEEK\<close> windows. From any \<open>now\<close> down to \<open>now\<close> minus 365
  days that is 53 windows; the last one is anchored 364 days back, so its seven days
  reach past the stop time. In general the last anchor lies after the stop time and at
  most a week after it, so the last window reaches the stop time or overshoots it. With
  the stop time at or after the start anchor there is no window.
\<close>

theorem backward_planner_windows:
  "length (window_anchors start_anchor stop_time) = nat (- ((stop_time - start_anchor) div WEEK))
   \<and> length (window_anchors now (now - 365 * DAY)) = 53
   \<and> last (window_anchors now (now - 365 * DAY)) = now - 364 * DAY
   \<and> (stop_time < start_anchor \<longrightarrow>
        stop_time < last (window_anchors start_anchor stop_time)
        \<and> last (window_anchors start_anchor stop_time) - WEEK \<le> stop_time)
   \<and> (stop_time \<ge> start_anchor \<longrightarrow> window_anchors start_anchor stop_time = [])"
proof -
  have "last (window_anchors now (now - 365 * DAY)) = now - 364 * DAY"
    by (simp add: window_anchors_step window_anchors_empty WEEK_def DAY_def)
  then show ?thesis
    using year_windows[of now] length_window_anchors[of start_anchor stop_time]
      last_window_anchors[of stop_time start_anchor]
    by (simp add: window_anchors_empty)
qed

text \<open>
  Claim C3, the theorem at 2025-01-01 as both anchor and stop time (no window), and from
  2025-03-01 back to 2025-01-01 (nine windows).
\<close>

theorem backward_planner_windows_witness:
  "(1735689600000000::int) \<ge> 1735689600000000
   \<and> window_anchors 1735689600000000 1735689600000000 = []
   \<and> (1735689600000000::int) < 1740787200000000
   \<and> length (window_anchors 1740787200000000 1735689600000000) = 9
   \<and> last (window_anchors 1740787200000000 1735689600000000) - WEEK \<le> 1735689600000000"
  using backward_planner_windows[of 1735689600000000 1735689600000000 0]
    backward_planner_windows[of 1740787200000000 1735689600000000 0]
  by (simp add: WEEK_def DAY_def)

text \<open>
  Claim C4, as the code has it. A CSV write that raises is not caught in the scraper.
  \<^verbatim>\<open>flush_buffer\<close> stops at the first metric whose file cannot be written: the files
  of the metrics before it are written, that file and the files of the metrics after it
  are not. When that happens in the flush after a window, the loop and with it
  \<^verbatim>\<open>backfill_history\<close> end there with the exception, whatever windows were still to
  come; when it happens in the final flush, \<^verbatim>\<open>backfill_history\<close> ends with the
  exception. The result is the exception and the disk: no buffer is kept and no flush is
  tried again. In \<^verbatim>\<open>write_to_influx\<close> a write that raises is caught, the bucket stays
  as it was, and the frame is not kept.
\<close>

theorem flush_failure_propagates:
  "(concat data_list \<noteq> [] \<and> to_csv_raises env (csv_filename m (combine_chunks data_list))
      \<longrightarrow> flush_metric env m data_list disk = Inl (OSError, disk))
   \<and> (METRICS = pre @ m # post \<and> flush_metrics env pre buffer disk = Inr disk_pre
        \<and> concat (buffer m) \<noteq> []
        \<and> to_csv_raises env (csv_filename m (combine_chunks (buffer m)))
      \<longrightarrow> flush_buffer env buffer disk = Inl (OSError, disk_pre))
   \<and> (end_date < current_date \<and> current_date \<le> now \<and> (now - current_date) mod WEEK = 0
        \<and> backfill_loop env now current_date empty_buffer disk_start = Inr (monthly_buffer, disk)
        \<and> buffer = fetch_metrics env (get_timestamp_ms current_date) METRICS monthly_buffer
        \<and> 4 \<le> length (buffer Temp)
        \<and> METRICS = pre @ m # post \<and> flush_metrics env pre buffer disk = Inr disk_pre
        \<and> concat (buffer m) \<noteq> []
        \<and> to_csv_raises env (csv_filename m (combine_chunks (buffer m)))
      \<longrightarrow> backfill_loop env current_date end_date monthly_buffer disk = Inl (OSError, disk_pre)
          \<and> backfill_loop env now end_date empty_buffer disk_start = Inl (OSError, disk_pre)
          \<and> (end_date = datetime_jan1 start_year
               \<longrightarrow> backfill_history env now start_year disk_start = Inl (OSError, disk_pre)))
   \<and> (backfill_loop env now (datetime_jan1 start_year) empty_buffer disk_start = Inr (buffer, disk)
        \<and> METRICS = pre @ m # post \<and> flush_metrics env pre buffer disk = Inr disk_pre
        \<and> concat (buffer m) \<noteq> []
        \<and> to_csv_raises env (csv_filename m (combine_chunks (buffer m)))
      \<longrightarrow> backfill_history env now start_year disk_start = Inl (OSError, disk_pre))
   \<and> (rows \<noteq> [] \<and> write_raises (map point_of_row rows)
      \<longrightarrow> write_to_influx write_raises (Some rows) store = store)"
proof -
  have c1: "concat data_list \<noteq> [] \<and> to_csv_raises env (csv_filename m (combine_chunks data_list))
      \<longrightarrow> flush_metric env m data_list disk = Inl (OSError, disk)"
    by (simp add: flush_metric_raises)
  have c2: "METRICS = pre @ m # post \<and> flush_metrics env pre buffer disk = Inr disk_pre
        \<and> concat (buffer m) \<noteq> []
        \<and> to_csv_raises env (csv_filename m (combine_chunks (buffer m)))
      \<longrightarrow> flush_buffer env buffer disk = Inl (OSError, disk_pre)"
    using flush_buffer_raises[of pre m post env buffer disk disk_pre] by blast
  have c3a: "backfill_loop env current_date end_date monthly_buffer disk = Inl (OSError, disk_pre)
          \<and> backfill_loop env now end_date empty_buffer disk_start = Inl (OSError, disk_pre)
          \<and> (end_date = datetime_jan1 start_year
               \<longrightarrow> backfill_history env now start_year disk_start = Inl (OSError, disk_pre))"
    if h: "end_date < current_date" "current_date \<le> now" "(now - current_date) mod WEEK = 0"
        "backfill_loop env now current_date empty_buffer disk_start = Inr (monthly_buffer, disk)"
        "buffer = fetch_metrics env (get_timestamp_ms current_date) METRICS monthly_buffer"
        "4 \<le> length (buffer Temp)"
        "METRICS = pre @ m # post" "flush_metrics env pre buffer disk = Inr disk_pre"
        "concat (buffer m) \<noteq> []"
        "to_csv_raises env (csv_filename m (combine_chunks (buffer m)))"
  proof -
    have f: "flush_buffer env buffer disk = Inl (OSError, disk_pre)"
      using h(7-10) by (rule flush_buffer_raises)
    have s: "backfill_loop env current_date end_date monthly_buffer disk = Inl (OSError, disk_pre)"
      using h(1) h(6) f by (simp add: backfill_loop_step Let_def h(5)[symmetric])
    have "end_date \<le> current_date" using h(1) by simp
    from backfill_loop_split[OF h(2) h(3) this, of env empty_buffer disk_start]
    have r: "backfill_loop env now end_date empty_buffer disk_start = Inl (OSError, disk_pre)"
      by (simp add: h(4) s)
    then show ?thesis using s by (auto simp: backfill_history_def)
  qed
  have c3: "end_date < current_date \<and> current_date \<le> now \<and> (now - current_date) mod WEEK = 0
        \<and> backfill_loop env now current_date empty_buffer disk_start = Inr (monthly_buffer, disk)
        \<and> buffer = fetch_metrics env (get_timestamp_ms current_date) METRICS monthly_buffer
        \<and> 4 \<le> length (buffer Temp)
        \<and> METRICS = pre @ m # post \<and> flush_metrics env pre buffer disk = Inr disk_pre
        \<and> concat (buffer m) \<noteq> []
        \<and> to_csv_raises env (csv_filename m (combine_chunks (buffer m)))
      \<longrightarrow> backfill_loop env current_date end_date monthly_buffer disk = Inl (OSError, disk_pre)
          \<and> backfill_loop env now end_date empty_buffer disk_start = Inl (OSError, disk_pre)
          \<and> (end_date = datetime_jan1 start_year
               \<longrightarrow> backfill_history env now start_year disk_start = Inl (OSError, disk_pre))"
    by (intro impI, elim conjE) (rule c3a)
  have c4: "backfill_loop env now (datetime_jan1 start_year) empty_buffer disk_start = Inr (buffer, disk)
        \<and> METRICS = pre @ m # post \<and> flush_metrics env pre buffer disk = Inr disk_pre
        \<and> concat (buffer m) \<noteq> []
        \<and> to_csv_raises env (csv_filename m (combine_chunks (buffer m)))
      \<longrightarrow> backfill_history env now start_year disk_start = Inl (OSError, disk_pre)"
    using flush_buffer_raises[of pre m post env buffer disk disk_pre]
    by (auto simp: backfill_history_def)
  have c5: "rows \<noteq> [] \<and> write_raises (map point_of_row rows)
      \<longrightarrow> write_to_influx write_raises (Some rows) store = store"
    by (simp add: write_to_influx_def)
  show ?thesis by (intro conjI c1 c2 c3 c4 c5)
qed

text \<open>
  Claim C4, the theorem at a run over five weeks whose first flush cannot write the temp
  file, at a run over one week whose final flush cannot, at a flush that writes temp and
  stops at wind, and at an InfluxDB write that raises.
\<close>

theorem flush_failure_propagates_witness:
  "backfill_history (sample_env [] [''data_lake/temp_1970-01-08.csv'', ''data_lake/temp_1970-02-05.csv''])
      3024000000000 1970 Map.empty = Inl (OSError, Map.empty)
   \<and> backfill_history (sample_env [] [''data_lake/temp_1970-01-08.csv'', ''data_lake/temp_1970-02-05.csv''])
      604800000000 1970 Map.empty = Inl (OSError, Map.empty)
   \<and> flush_buffer (sample_env [] [''data_lake/wind_1970-01-08.csv''])
        (empty_buffer(Temp := [[(604800000, Some 1)]], Wind := [[(604800000, Some 1)]],
                      Rain := [[(604800000, Some 1)]]))
        Map.empty
      = Inl (OSError, [''data_lake/temp_1970-01-08.csv'' \<mapsto> [(604800000, Some 1)]])
   \<and> flush_metric (sample_env [] [''data_lake/wind_1970-01-08.csv'']) Wind [[(604800000, Some 1)]]
        Map.empty = Inl (OSError, Map.empty)
   \<and> write_to_influx always_raises
        (Some [\<lparr>time = 0, temperature = Some 5, pressure = Some 1013, wind_speed = Some 3\<rparr>]) Map.empty
      = Map.empty"
proof -
  let ?L = "sample_env [] [''data_lake/temp_1970-01-08.csv'', ''data_lake/temp_1970-02-05.csv'']"
  let ?W = "sample_env [] [''data_lake/wind_1970-01-08.csv'']"
  let ?b3 = "\<lambda>m::metric. [[(3024000000::int, Some (1::real))], [(2419200000, Some 1)], [(1814400000, Some 1)]]"
  let ?b4 = "fetch_metrics ?L (get_timestamp_ms 1209600000000) METRICS ?b3"
  let ?b1 = "\<lambda>m::metric. [[(604800000::int, Some (1::real))]]"
  let ?bw = "empty_buffer(Temp := [[(604800000::int, Some (1::real))]], Wind := [[(604800000, Some 1)]],
                      Rain := [[(604800000, Some 1)]])"
  let ?rows = "[\<lparr>time = 0, temperature = Some (5::real), pressure = Some 1013, wind_speed = Some 3\<rparr>]"
  have M: "METRICS = [] @ Temp # [Wind, Rain, Press, Sun]" by (simp add: METRICS_def)
  have M2: "METRICS = [Temp] @ Wind # [Rain, Press, Sun]" by (simp add: METRICS_def)
  \<comment> \<open>the flush after the fourth window of a run over five weeks\<close>
  have l3: "backfill_loop ?L 3024000000000 1209600000000 empty_buffer Map.empty = Inr (?b3, Map.empty)"
    by (simp only: backfill_loop_windows three_weeks_back run3)
  have b4: "?b4 m = [[(3024000000, Some 1)], [(2419200000, Some 1)], [(1814400000, Some 1)],
                     [(1209600000, Some 1)]]" for m
    by (simp add: fetch_metrics_sample get_timestamp_ms_def)
  have r4: "to_csv_raises ?L (csv_filename Temp (combine_chunks (?b4 Temp)))"
    by (simp add: b4 combine_four csv_filename_samples to_csv_raises_sample)
  note a = flush_failure_propagates[where env = ?L and now = 3024000000000
      and current_date = 1209600000000 and end_date = 0 and start_year = 1970
      and disk_start = Map.empty and monthly_buffer = ?b3 and disk = Map.empty and buffer = ?b4
      and pre = "[]" and m = Temp and post = "[Wind, Rain, Press, Sun]" and disk_pre = Map.empty,
      THEN conjunct2, THEN conjunct2, THEN conjunct1, THEN mp]
  have "backfill_loop ?L 1209600000000 0 ?b3 Map.empty = Inl (OSError, Map.empty)
          \<and> backfill_loop ?L 3024000000000 0 empty_buffer Map.empty = Inl (OSError, Map.empty)
          \<and> (0 = datetime_jan1 1970
               \<longrightarrow> backfill_history ?L 3024000000000 1970 Map.empty = Inl (OSError, Map.empty))"
  proof (rule a, intro conjI)
    show "(0::int) < 1209600000000" by simp
    show "(1209600000000::int) \<le> 3024000000000" by simp
    show "(3024000000000 - 1209600000000) mod WEEK = 0" by (simp add: WEEK_def DAY_def)
    show "backfill_loop ?L 3024000000000 1209600000000 empty_buffer Map.empty = Inr (?b3, Map.empty)"
      by (rule l3)
    show "?b4 = fetch_metrics ?L (get_timestamp_ms 1209600000000) METRICS ?b3" by (rule refl)
    show "4 \<le> length (?b4 Temp)" by (simp add: b4)
    show "METRICS = [] @ Temp # [Wind, Rain, Press, Sun]" by (rule M)
    show "flush_metrics ?L [] ?b4 Map.empty = Inr Map.empty" by simp
    show "concat (?b4 Temp) \<noteq> []" by (simp add: b4)
    show "to_csv_raises ?L (csv_filename Temp (combine_chunks (?b4 Temp)))" by (rule r4)
  qed
  then have A: "backfill_history ?L 3024000000000 1970 Map.empty = Inl (OSError, Map.empty)"
    by (simp add: jan1_1970)
  \<comment> \<open>the final flush of a run over one week\<close>
  have l1: "backfill_loop ?L 604800000000 (datetime_jan1 1970) empty_buffer Map.empty = Inr (?b1, Map.empty)"
    by (simp only: backfill_loop_windows jan1_1970 one_week run1)
  have r1: "to_csv_raises ?L (csv_filename Temp (combine_chunks (?b1 Temp)))"
    by (simp add: combine_one csv_filename_samples to_csv_raises_sample)
  note b = flush_failure_propagates[where env = ?L and now = 604800000000 and start_year = 1970
      and disk_start = Map.empty and buffer = ?b1 and disk = Map.empty
      and pre = "[]" and m = Temp and post = "[Wind, Rain, Press, Sun]" and disk_pre = Map.empty,
      THEN conjunct2, THEN conjunct2, THEN conjunct2, THEN conjunct1, THEN mp]
  have B: "backfill_history ?L 604800000000 1970 Map.empty = Inl (OSError, Map.empty)"
  proof (rule b, intro conjI)
    show "backfill_loop ?L 604800000000 (datetime_jan1 1970) empty_buffer Map.empty = Inr (?b1, Map.empty)"
      by (rule l1)
    show "METRICS = [] @ Temp # [Wind, Rain, Press, Sun]" by (rule M)
    show "flush_metrics ?L [] ?b1 Map.empty = Inr Map.empty" by simp
    show "concat (?b1 Temp) \<noteq> []" by simp
    show "to_csv_raises ?L (csv_filename Temp (combine_chunks (?b1 Temp)))" by (rule r1)
  qed
  \<comment> \<open>a flush that writes temp and stops at wind\<close>
  have p: "flush_metrics ?W [Temp] ?bw Map.empty
        = Inr [''data_lake/temp_1970-01-08.csv'' \<mapsto> [(604800000, Some 1)]]"
    by (simp add: flush_metric_one)
  have rw: "to_csv_raises ?W (csv_filename Wind (combine_chunks (?bw Wind)))"
    by (simp add: combine_one csv_filename_samples to_csv_raises_sample)
  note c = flush_failure_propagates[where env = ?W and buffer = ?bw and disk = Map.empty
      and pre = "[Temp]" and m = Wind and post = "[Rain, Press, Sun]"
      and disk_pre = "[''data_lake/temp_1970-01-08.csv'' \<mapsto> [(604800000, Some 1)]]",
      THEN conjunct2, THEN conjunct1, THEN mp]
  have C: "flush_buffer ?W ?bw Map.empty
      = Inl (OSError, [''data_lake/temp_1970-01-08.csv'' \<mapsto> [(604800000, Some 1)]])"
  proof (rule c, intro conjI)
    show "METRICS = [Temp] @ Wind # [Rain, Press, Sun]" by (rule M2)
    show "flush_metrics ?W [Temp] ?bw Map.empty
        = Inr [''data_lake/temp_1970-01-08.csv'' \<mapsto> [(604800000, Some 1)]]" by (rule p)
    show "concat (?bw Wind) \<noteq> []" by simp
    show "to_csv_raises ?W (csv_filename Wind (combine_chunks (?bw Wind)))" by (rule rw)
  qed
  note d = flush_failure_propagates[where env = ?W and data_list = "[[(604800000, Some 1)]]"
      and m = Wind and disk = Map.empty, THEN conjunct1, THEN mp]
  have D: "flush_metric ?W Wind [[(604800000, Some 1)]] Map.empty = Inl (OSError, Map.empty)"
    by (rule d) (simp add: combine_one csv_filename_samples to_csv_raises_sample)
  note e = flush_failure_propagates[where rows = ?rows and write_raises = always_raises
      and store = Map.empty, THEN conjunct2, THEN conjunct2, THEN conjunct2, THEN conjunct2, THEN mp]
  have E: "write_to_influx always_raises (Some ?rows) Map.empty = Map.empty"
    by (rule e) (simp add: always_raises_def)
  show ?thesis using A B C D E by simp
qed

text \<open>
  Claim C4 as stated fails: with the temp file of the first flush unwritable, a backfill
  over five weeks ends with the exception and an empty data lake. The four windows
  buffered for the other metrics are lost with it (a writable data lake would hold
  them), and the fifth window is never fetched.
\<close>

theorem flush_failure_retains_counterexample:
  "backfill_history (sample_env [] [''data_lake/temp_1970-02-05.csv'']) 3024000000000 1970 Map.empty
     = Inl (OSError, Map.empty)
   \<and> disk_of (backfill_history (sample_env [] []) 3024000000000 1970 Map.empty)
        ''data_lake/wind_1970-02-05.csv''
      = Some [(1209600000, Some 1), (1814400000, Some 1), (2419200000, Some 1), (3024000000, Some 1)]"
  by (simp add: history_five_weeks flush_buffer_def METRICS_def flush_metric_four flush_metric_one)

text \<open>
  Claim C5. When the fetch of one metric fails at a window, that metric's buffer is left
  as it was, and every other metric whose fetch brought records has its processed frame
  appended to its buffer at that window. The loop then goes on with these buffers: it
  flushes them when temp has reached four chunks, and in either case turns to the window
  a week earlier. So does the whole run: with the loop having reached that window,
  \<^verbatim>\<open>backfill_history\<close> is the rest of the loop from the window a week earlier on these
  buffers, followed by the final flush. No fetch result can stop the run: when no CSV
  write raises, \<^verbatim>\<open>backfill_history\<close> returns.
\<close>

theorem failed_fetch_skips_only_that_metric:
  assumes "fetch_chunk env (metric_name failing) bis_ts 7 = None"
  shows "fetch_metrics env bis_ts METRICS monthly_buffer failing = monthly_buffer failing
    \<and> (\<forall>m raw_data. m \<noteq> failing \<and> fetch_chunk env (metric_name m) bis_ts 7 = Some raw_data
          \<and> raw_data \<noteq> [] \<longrightarrow>
          fetch_metrics env bis_ts METRICS monthly_buffer m =
            monthly_buffer m @ [process_data raw_data m])
    \<and> (end_date < current_date \<and> bis_ts = get_timestamp_ms current_date \<longrightarrow>
          backfill_loop env current_date end_date monthly_buffer disk =
            (if 4 \<le> length (fetch_metrics env bis_ts METRICS monthly_buffer Temp) then
               (case flush_buffer env (fetch_metrics env bis_ts METRICS monthly_buffer) disk of
                  Inl e \<Rightarrow> Inl e
                | Inr disk' \<Rightarrow> backfill_loop env (current_date - WEEK) end_date empty_buffer disk')
             else backfill_loop env (current_date - WEEK) end_date
                    (fetch_metrics env bis_ts METRICS monthly_buffer) disk))
    \<and> (datetime_jan1 start_year < current_date \<and> current_date \<le> now
           \<and> (now - current_date) mod WEEK = 0
           \<and> backfill_loop env now current_date empty_buffer disk_start = Inr (monthly_buffer, disk)
           \<and> bis_ts = get_timestamp_ms current_date \<longrightarrow>
          backfill_history env now start_year disk_start =
            (case (if 4 \<le> length (fetch_metrics env bis_ts METRICS monthly_buffer Temp) then
                     (case flush_buffer env (fetch_metrics env bis_ts METRICS monthly_buffer) disk of
                        Inl e \<Rightarrow> Inl e
                      | Inr disk' \<Rightarrow>
                          backfill_loop env (current_date - WEEK) (datetime_jan1 start_year)
                            empty_buffer disk')
                   else backfill_loop env (current_date - WEEK) (datetime_jan1 start_year)
                          (fetch_metrics env bis_ts METRICS monthly_buffer) disk) of
               Inl e \<Rightarrow> Inl e
             | Inr (final_buffer, final_disk) \<Rightarrow> flush_buffer env final_buffer final_disk))
    \<and> ((\<forall>p. \<not> to_csv_raises env p) \<longrightarrow>
          (\<exists>disk'. backfill_history env now start_year disk_start = Inr disk'))"
proof -
  have step: "backfill_loop env c e monthly_buffer disk =
            (if 4 \<le> length (fetch_metrics env bis_ts METRICS monthly_buffer Temp) then
               (case flush_buffer env (fetch_metrics env bis_ts METRICS monthly_buffer) disk of
                  Inl e \<Rightarrow> Inl e
                | Inr disk' \<Rightarrow> backfill_loop env (c - WEEK) e empty_buffer disk')
             else backfill_loop env (c - WEEK) e
                    (fetch_metrics env bis_ts METRICS monthly_buffer) disk)"
    if "e < c" "bis_ts = get_timestamp_ms c" for c e
    using that by (simp add: backfill_loop_step Let_def)
  have c3: "end_date < current_date \<and> bis_ts = get_timestamp_ms current_date \<longrightarrow>
          backfill_loop env current_date end_date monthly_buffer disk =
            (if 4 \<le> length (fetch_metrics env bis_ts METRICS monthly_buffer Temp) then
               (case flush_buffer env (fetch_metrics env bis_ts METRICS monthly_buffer) disk of
                  Inl e \<Rightarrow> Inl e
                | Inr disk' \<Rightarrow> backfill_loop env (current_date - WEEK) end_date empty_buffer disk')
             else backfill_loop env (current_date - WEEK) end_date
                    (fetch_metrics env bis_ts METRICS monthly_buffer) disk)"
    using step[of end_date current_date] by blast
  have c4: "datetime_jan1 start_year < current_date \<and> current_date \<le> now
           \<and> (now - current_date) mod WEEK = 0
           \<and> backfill_loop env now current_date empty_buffer disk_start = Inr (monthly_buffer, disk)
           \<and> bis_ts = get_timestamp_ms current_date \<longrightarrow>
          backfill_history env now start_year disk_start =
            (case (if 4 \<le> length (fetch_metrics env bis_ts METRICS monthly_buffer Temp) then
                     (case flush_buffer env (fetch_metrics env bis_ts METRICS monthly_buffer) disk of
                        Inl e \<Rightarrow> Inl e
                      | Inr disk' \<Rightarrow>
                          backfill_loop env (current_date - WEEK) (datetime_jan1 start_year)
                            empty_buffer disk')
                   else backfill_loop env (current_date - WEEK) (datetime_jan1 start_year)
                          (fetch_metrics env bis_ts METRICS monthly_buffer) disk) of
               Inl e \<Rightarrow> Inl e
             | Inr (final_buffer, final_disk) \<Rightarrow> flush_buffer env final_buffer final_disk)"
  proof (intro impI, elim conjE)
    assume h: "datetime_jan1 start_year < current_date" "current_date \<le> now"
      "(now - current_date) mod WEEK = 0"
      "backfill_loop env now current_date empty_buffer disk_start = Inr (monthly_buffer, disk)"
      "bis_ts = get_timestamp_ms current_date"
    have le: "datetime_jan1 start_year \<le> current_date" using h(1) by simp
    have "backfill_loop env now (datetime_jan1 start_year) empty_buffer disk_start =
          backfill_loop env current_date (datetime_jan1 start_year) monthly_buffer disk"
      using backfill_loop_split[OF h(2) h(3) le, of env empty_buffer disk_start]
      by (simp add: h(4))
    then show "backfill_history env now start_year disk_start =
            (case (if 4 \<le> length (fetch_metrics env bis_ts METRICS monthly_buffer Temp) then
                     (case flush_buffer env (fetch_metrics env bis_ts METRICS monthly_buffer) disk of
                        Inl e \<Rightarrow> Inl e
                      | Inr disk' \<Rightarrow>
                          backfill_loop env (current_date - WEEK) (datetime_jan1 start_year)
                            empty_buffer disk')
                   else backfill_loop env (current_date - WEEK) (datetime_jan1 start_year)
                          (fetch_metrics env bis_ts METRICS monthly_buffer) disk) of
               Inl e \<Rightarrow> Inl e
             | Inr (final_buffer, final_disk) \<Rightarrow> flush_buffer env final_buffer final_disk)"
      by (simp only: backfill_history_def step[OF h(1) h(5), symmetric])
  qed
  have bufs: "fetch_metrics env bis_ts METRICS monthly_buffer failing = monthly_buffer failing
    \<and> (\<forall>m raw_data. m \<noteq> failing \<and> fetch_chunk env (metric_name m) bis_ts 7 = Some raw_data
          \<and> raw_data \<noteq> [] \<longrightarrow>
          fetch_metrics env bis_ts METRICS monthly_buffer m =
            monthly_buffer m @ [process_data raw_data m])"
    using assms by (auto simp: fetch_metrics_METRICS window_chunk_def)
  have c5: "(\<forall>p. \<not> to_csv_raises env p) \<longrightarrow>
          (\<exists>disk'. backfill_history env now start_year disk_start = Inr disk')"
    using backfill_history_ok[of env now start_year disk_start] by blast
  show ?thesis
    by (intro conjI bufs[THEN conjunct1] bufs[THEN conjunct2] c3 c4 c5)
qed

text \<open>
  Claim C5, the theorem at a source whose wind requests fail, over five weeks: the loop
  and the run go on to the second window with the four other buffers filled, and the run
  ends with the temp rows of all five windows on disk and no wind file.
\<close>

theorem failed_fetch_skips_only_that_metric_witness:
  "fetch_chunk (sample_env [Wind] []) (metric_name Wind) 3024000000 7 = None
   \<and> fetch_metrics (sample_env [Wind] []) 3024000000 METRICS empty_buffer Wind = []
   \<and> fetch_metrics (sample_env [Wind] []) 3024000000 METRICS empty_buffer Temp = [[(3024000000, Some 1)]]
   \<and> fetch_metrics (sample_env [Wind] []) 3024000000 METRICS empty_buffer Sun = [[(3024000000, Some 1)]]
   \<and> backfill_loop (sample_env [Wind] []) 3024000000000 0 empty_buffer Map.empty
       = backfill_loop (sample_env [Wind] []) 2419200000000 0
           (fetch_metrics (sample_env [Wind] []) 3024000000 METRICS empty_buffer) Map.empty
   \<and> backfill_history (sample_env [Wind] []) 3024000000000 1970 Map.empty
       = (case backfill_loop (sample_env [Wind] []) 2419200000000 0
                (fetch_metrics (sample_env [Wind] []) 3024000000 METRICS empty_buffer) Map.empty of
            Inl e \<Rightarrow> Inl e
          | Inr (final_buffer, final_disk) \<Rightarrow> flush_buffer (sample_env [Wind] []) final_buffer final_disk)
   \<and> \<not> isl (backfill_history (sample_env [Wind] []) 3024000000000 1970 Map.empty)
   \<and> disk_of (backfill_history (sample_env [Wind] []) 3024000000000 1970 Map.empty)
        ''data_lake/temp_1970-02-05.csv''
      = Some [(1209600000, Some 1), (1814400000, Some 1), (2419200000, Some 1), (3024000000, Some 1)]
   \<and> disk_of (backfill_history (sample_env [Wind] []) 3024000000000 1970 Map.empty)
        ''data_lake/temp_1970-01-08.csv'' = Some [(604800000, Some 1)]
   \<and> disk_of (backfill_history (sample_env [Wind] []) 3024000000000 1970 Map.empty)
        ''data_lake/wind_1970-02-05.csv'' = None"
proof -
  let ?W = "sample_env [Wind] []"
  let ?b = "fetch_metrics ?W 3024000000 METRICS empty_buffer"
  have h: "fetch_chunk ?W (metric_name Wind) 3024000000 7 = None"
    by (simp add: fetch_chunk_sample)
  note w = failed_fetch_skips_only_that_metric[OF h, where monthly_buffer = empty_buffer
      and end_date = 0 and current_date = 3024000000000 and disk = Map.empty
      and now = 3024000000000 and start_year = 1970 and disk_start = Map.empty]
  have a: "?b Wind = []"
    using w by (simp add: empty_buffer_def)
  have b: "?b m = [[(3024000000, Some 1)]]"
    if "m \<noteq> Wind" and
      f: "fetch_chunk ?W (metric_name m) 3024000000 7 = Some [\<lparr>t = 3024000000, v = Some 1\<rparr>]" for m
  proof -
    have "[\<lparr>t = 3024000000, v = Some (1::real)\<rparr>] \<noteq> []" by simp
    with that w have "?b m = empty_buffer m @ [process_data [\<lparr>t = 3024000000, v = Some 1\<rparr>] m]"
      by blast
    then show ?thesis by (simp add: empty_buffer_def process_data_def)
  qed
  have bT: "?b Temp = [[(3024000000, Some 1)]]"
    by (rule b) (simp_all add: fetch_chunk_sample)
  have bS: "?b Sun = [[(3024000000, Some 1)]]"
    by (rule b) (simp_all add: fetch_chunk_sample)
  have g: "(0::int) < 3024000000000 \<and> (3024000000::int) = get_timestamp_ms 3024000000000"
    by (simp add: get_timestamp_ms_def)
  from w[THEN conjunct2, THEN conjunct2, THEN conjunct1] g
  have "backfill_loop ?W 3024000000000 0 empty_buffer Map.empty =
            (if 4 \<le> length (?b Temp) then
               (case flush_buffer ?W ?b Map.empty of
                  Inl e \<Rightarrow> Inl e
                | Inr disk' \<Rightarrow> backfill_loop ?W (3024000000000 - WEEK) 0 empty_buffer disk')
             else backfill_loop ?W (3024000000000 - WEEK) 0 ?b Map.empty)"
    by blast
  then have s: "backfill_loop ?W 3024000000000 0 empty_buffer Map.empty
       = backfill_loop ?W 2419200000000 0 ?b Map.empty"
    by (simp add: bT WEEK_def DAY_def)
  have g2: "datetime_jan1 1970 < 3024000000000 \<and> (3024000000000::int) \<le> 3024000000000
           \<and> (3024000000000 - 3024000000000) mod WEEK = 0
           \<and> backfill_loop ?W 3024000000000 3024000000000 empty_buffer Map.empty
               = Inr (empty_buffer, Map.empty)
           \<and> (3024000000::int) = get_timestamp_ms 3024000000000"
    by (simp add: jan1_1970 get_timestamp_ms_def backfill_loop_windows window_anchors_empty)
  from w[THEN conjunct2, THEN conjunct2, THEN conjunct2, THEN conjunct1] g2
  have "backfill_history ?W 3024000000000 1970 Map.empty =
            (case (if 4 \<le> length (?b Temp) then
                     (case flush_buffer ?W ?b Map.empty of
                        Inl e \<Rightarrow> Inl e
                      | Inr disk' \<Rightarrow>
                          backfill_loop ?W (3024000000000 - WEEK) (datetime_jan1 1970)
                            empty_buffer disk')
                   else backfill_loop ?W (3024000000000 - WEEK) (datetime_jan1 1970) ?b Map.empty) of
               Inl e \<Rightarrow> Inl e
             | Inr (final_buffer, final_disk) \<Rightarrow> flush_buffer ?W final_buffer final_disk)"
    by blast
  then have s2: "backfill_history ?W 3024000000000 1970 Map.empty
       = (case backfill_loop ?W 2419200000000 0 ?b Map.empty of
            Inl e \<Rightarrow> Inl e
          | Inr (final_buffer, final_disk) \<Rightarrow> flush_buffer ?W final_buffer final_disk)"
    by (simp add: bT WEEK_def DAY_def jan1_1970)
  have "\<forall>p. \<not> to_csv_raises ?W p"
    by (simp add: to_csv_raises_sample)
  with w obtain d where r: "backfill_history ?W 3024000000000 1970 Map.empty = Inr d"
    by blast
  have files: "disk_of (backfill_history ?W 3024000000000 1970 Map.empty)
        ''data_lake/temp_1970-02-05.csv''
      = Some [(1209600000, Some 1), (1814400000, Some 1), (2419200000, Some 1), (3024000000, Some 1)]"
    "disk_of (backfill_history ?W 3024000000000 1970 Map.empty)
        ''data_lake/temp_1970-01-08.csv'' = Some [(604800000, Some 1)]"
    "disk_of (backfill_history ?W 3024000000000 1970 Map.empty)
        ''data_lake/wind_1970-02-05.csv'' = None"
    by (simp_all add: history_wind_down flush_buffer_unfold flush_metric_four flush_metric_one
          flush_metric_none)
  have n: "\<not> isl (backfill_history ?W 3024000000000 1970 Map.empty)" using r by simp
  show ?thesis
    by (intro conjI h a bT bS s s2 n files)
qed

text \<open>
  Claim C6. Flushing a snapshot again on the disk the first flush left gives the same
  outcome and the same disk, whether the flush returned or raised; \<^verbatim>\<open>to_csv\<close>
  replaces a file. Writing the same frame to InfluxDB twice leaves the bucket as one
  write does (on the store's upsert, taken from the spec).
\<close>

theorem flush_idempotent:
  "flush_buffer env s (disk_of (flush_buffer env s disk)) = flush_buffer env s disk
   \<and> disk_of (flush_buffer env s (disk_of (flush_buffer env s disk))) = disk_of (flush_buffer env s disk)
   \<and> write_to_influx write_raises df (write_to_influx write_raises df store) =
       write_to_influx write_raises df store"
  by (simp add: flush_buffer_def flush_metrics_twice write_to_influx_twice)

text \<open>
  Claim C7, as the code has it. \<^verbatim>\<open>process_data\<close> keeps every record of the payload, in
  order, with its value as it came: a null value stays null, it is neither dropped nor
  turned into zero. \<^verbatim>\<open>fetch_open_meteo\<close> does the same with the arrays of the
  Open-Meteo answer. Nothing is dropped, and no drop is counted.
\<close>

theorem normalizer_keeps_null_rows:
  "map fst (process_data raw_data m) = map t raw_data
   \<and> map snd (process_data raw_data m) = map v raw_data
   \<and> (fetch_open_meteo (Json h) = Some rows \<longrightarrow>
        map time rows = hourly_time h \<and> map temperature rows = temperature_2m h
        \<and> map pressure rows = pressure_msl h \<and> map wind_speed rows = wind_speed_10m h)"
proof -
  have z: "\<And>(as :: int list) (bs :: 'b option list) (cs :: 'b option list) (ds :: 'b option list).
       length bs = length as \<Longrightarrow> length cs = length as \<Longrightarrow> length ds = length as \<Longrightarrow>
       map fst (zip as (zip bs (zip cs ds))) = as
       \<and> map (fst \<circ> snd) (zip as (zip bs (zip cs ds))) = bs 
       \<and> map (fst \<circ> snd \<circ> snd) (zip as (zip bs (zip cs ds))) = cs 
       \<and> map (snd \<circ> snd \<circ> snd) (zip as (zip bs (zip cs ds))) = ds"
  proof -
    fix as :: "int list" and bs cs ds :: "'b option list"
    assume "length bs = length as" "length cs = length as" "length ds = length as"
    then show "map fst (zip as (zip bs (zip cs ds))) = as
       \<and> map (fst \<circ> snd) (zip as (zip bs (zip cs ds))) = bs 
       \<and> map (fst \<circ> snd \<circ> snd) (zip as (zip bs (zip cs ds))) = cs 
       \<and> map (snd \<circ> snd \<circ> snd) (zip as (zip bs (zip cs ds))) = ds"
    proof (induction as arbitrary: bs cs ds)
      case Nil
      then show ?case by simp
    next
      case (Cons a as)
      then show ?case by (cases bs; cases cs; cases ds) simp_all
    qed
  qed
  have "fetch_open_meteo (Json h) = Some rows \<longrightarrow>
        map time rows = hourly_time h \<and> map temperature rows = temperature_2m h
        \<and> map pressure rows = pressure_msl h \<and> map wind_speed rows = wind_speed_10m h"
    using z[of "temperature_2m h" "hourly_time h" "pressure_msl h" "wind_speed_10m h"]
    by (auto simp: fetch_open_meteo_def comp_def case_prod_unfold split: if_splits)
  then show ?thesis by (simp add: process_data_def comp_def)
qed

text \<open>
  Claim C7, the theorem at an Open-Meteo answer with a null temperature and a null wind
  speed.
\<close>

theorem normalizer_keeps_null_rows_witness:
  "fetch_open_meteo (Json sample_hourly) =
     Some [\<lparr>time = 0, temperature = None, pressure = Some 1013, wind_speed = Some 3\<rparr>,
           \<lparr>time = 3600, temperature = Some 5, pressure = Some 1012, wind_speed = None\<rparr>]
   \<and> map temperature [\<lparr>time = 0, temperature = None, pressure = Some 1013, wind_speed = Some (3::real)\<rparr>,
           \<lparr>time = 3600, temperature = Some 5, pressure = Some 1012, wind_speed = None\<rparr>]
       = temperature_2m sample_hourly"
  using normalizer_keeps_null_rows[of "[]" Temp sample_hourly
     "[\<lparr>time = 0, temperature = None, pressure = Some 1013, wind_speed = Some 3\<rparr>,
           \<lparr>time = 3600, temperature = Some 5, pressure = Some 1012, wind_speed = None\<rparr>]"]
  by (simp add: fetch_open_meteo_def sample_hourly_def)

text \<open>
  Claim C7 as stated fails: a record whose value is null is still a row of the
  normalised frame.
\<close>

theorem normalizer_drops_null_counterexample:
  "process_data [\<lparr>t = 1735689600000, v = None\<rparr>, \<lparr>t = 1735689660000, v = Some (5::real)\<rparr>] Temp
   = [(1735689600000, None), (1735689660000, Some 5)]"
  by (simp add: process_data_def)

text \<open>
  Claim C8, on the code. The claim asks that the service retries the readiness probe a
  bounded number of times and stops for good when the store has not become healthy. The
  code does call \<^verbatim>\<open>initial_backfill\<close> next in every case: nothing after the loop
  looks at how it ended. It probes at most ten times and sleeps five seconds after each
  probe that raised. When the probes return a check with status fail, the first one ends
  the loop: no retry, no sleep. When all ten probes raise, the loop runs out and the
  service goes on all the same.
\<close>

theorem startup_proceeds_without_ready_store:
  "last (main_startup health) = InitialBackfill
   \<and> count_list (main_startup health) (Probe Raised) \<le> 10
   \<and> count_list (main_startup health) (Sleep 5) = count_list (main_startup health) (Probe Raised)
   \<and> main_startup store_reports_fail =
        [Print ''Weather Ingest Service Started...'', Probe (Returned False), InitialBackfill]
   \<and> main_startup probe_always_raises =
        Print ''Weather Ingest Service Started...'' #
        concat (replicate 10 [Probe Raised, Print ''Waiting for InfluxDB...'', Sleep 5]) @
        [InitialBackfill]"
proof -
  have a: "main_startup store_reports_fail =
        [Print ''Weather Ingest Service Started...'', Probe (Returned False), InitialBackfill]"
    by (simp add: main_startup_def store_reports_fail_def upt_rec)
  have b: "main_startup probe_always_raises =
        Print ''Weather Ingest Service Started...'' #
        concat (replicate 10 [Probe Raised, Print ''Waiting for InfluxDB...'', Sleep 5]) @
        [InitialBackfill]"
    by (simp add: main_startup_def probe_always_raises_def eval_nat_numeral)
  show ?thesis
    using a b wait_count_le[of health "[0..<10]"] wait_sleeps[of health "[0..<10]"]
    by (simp add: main_startup_def)
qed

text \<open>
  Claim C9. One step of the backfill loop fetches the window and then flushes all
  buffers and resets them exactly when the temp buffer holds at least four chunks;
  otherwise it goes on with the buffers as they are. When every temp fetch fails or
  comes back empty, the loop never flushes: it returns the disk it started with and the
  buffers of all windows accumulated, each metric's buffer holding one chunk per window
  whose fetch brought records, and the only flush of \<^verbatim>\<open>backfill_history\<close> is the
  final one.
\<close>

theorem flush_decided_by_temp_buffer:
  "(current_date > end_date \<longrightarrow>
      backfill_loop env current_date end_date monthly_buffer disk =
        (let buffer' = fetch_metrics env (get_timestamp_ms current_date) METRICS monthly_buffer
         in if 4 \<le> length (buffer' Temp) then
              (case flush_buffer env buffer' disk of
                 Inl e \<Rightarrow> Inl e
               | Inr disk' \<Rightarrow> backfill_loop env (current_date - WEEK) end_date empty_buffer disk')
            else backfill_loop env (current_date - WEEK) end_date buffer' disk))
   \<and> ((\<forall>bis_ts. fetch_chunk env (metric_name Temp) bis_ts 7 = None
                \<or> fetch_chunk env (metric_name Temp) bis_ts 7 = Some []) \<longrightarrow>
        backfill_loop env now end_date empty_buffer disk =
          Inr (foldl (\<lambda>b a. fetch_metrics env (get_timestamp_ms a) METRICS b) empty_buffer
                 (window_anchors now end_date), disk)
        \<and> (\<forall>m. length (foldl (\<lambda>b a. fetch_metrics env (get_timestamp_ms a) METRICS b) empty_buffer
                          (window_anchors now end_date) m) =
                 length (filter (\<lambda>a. fetch_chunk env (metric_name m) (get_timestamp_ms a) 7 \<noteq> None
                                   \<and> fetch_chunk env (metric_name m) (get_timestamp_ms a) 7 \<noteq> Some [])
                           (window_anchors now end_date)))
        \<and> backfill_history env now start_year disk =
            flush_buffer env
              (foldl (\<lambda>b a. fetch_metrics env (get_timestamp_ms a) METRICS b) empty_buffer
                 (window_anchors now (datetime_jan1 start_year))) disk)"
proof -
  have lens: "length (foldl (\<lambda>b a. fetch_metrics env (get_timestamp_ms a) METRICS b) empty_buffer as m) =
        length (filter (\<lambda>a. fetch_chunk env (metric_name m) (get_timestamp_ms a) 7 \<noteq> None
                          \<and> fetch_chunk env (metric_name m) (get_timestamp_ms a) 7 \<noteq> Some []) as)" for as m
    by (simp add: foldl_fetch_metrics length_concat_window_chunks window_chunk_empty_iff empty_buffer_def)
  have loop: "backfill_loop env n e empty_buffer disk =
          Inr (foldl (\<lambda>b a. fetch_metrics env (get_timestamp_ms a) METRICS b) empty_buffer
                 (window_anchors n e), disk)"
    if "\<forall>bis_ts. fetch_chunk env (metric_name Temp) bis_ts 7 = None
                \<or> fetch_chunk env (metric_name Temp) bis_ts 7 = Some []" for n e
  proof -
    have "window_chunk env Temp (get_timestamp_ms a) = []" for a
      using that by (simp only: window_chunk_empty_iff)
    then show ?thesis
      by (simp add: backfill_loop_windows run_windows_no_flush empty_buffer_def)
  qed
  show ?thesis
    using backfill_loop_step[of end_date current_date env monthly_buffer disk]
      loop[of now end_date] loop[of now "datetime_jan1 start_year"] lens
    by (simp add: backfill_history_def)
qed

text \<open>
  Claim C9, the theorem at a source whose temp requests fail, over five weeks: five wind
  chunks are buffered and written by the final flush alone.
\<close>

theorem flush_decided_by_temp_buffer_witness:
  "(case backfill_loop (sample_env [Temp] []) 3024000000000 0 empty_buffer Map.empty of
      Inl x \<Rightarrow> False
    | Inr (b, d) \<Rightarrow> length (b Temp) = 0 \<and> length (b Wind) = 5
        \<and> d ''data_lake/wind_1970-02-05.csv'' = None)
   \<and> disk_of (backfill_history (sample_env [Temp] []) 3024000000000 1970 Map.empty)
        ''data_lake/wind_1970-02-05.csv''
      = Some [(604800000, Some 1), (1209600000, Some 1), (1814400000, Some 1),
              (2419200000, Some 1), (3024000000, Some 1)]
   \<and> disk_of (backfill_history (sample_env [Temp] []) 3024000000000 1970 Map.empty)
        ''data_lake/temp_1970-02-05.csv'' = None"
proof -
  let ?T = "sample_env [Temp] []"
  let ?F = "\<lambda>b a. fetch_metrics ?T (get_timestamp_ms a) METRICS b"
  have h: "\<forall>bis_ts. fetch_chunk ?T (metric_name Temp) bis_ts 7 = None
                \<or> fetch_chunk ?T (metric_name Temp) bis_ts 7 = Some []"
    by (simp add: fetch_chunk_sample)
  note w = flush_decided_by_temp_buffer[where env = ?T and now = 3024000000000 and end_date = 0
      and start_year = 1970 and disk = Map.empty, THEN conjunct2, THEN mp, OF h]
  have B: "foldl ?F empty_buffer (window_anchors 3024000000000 0) =
      (\<lambda>m. if m = Temp then []
            else [[(3024000000, Some 1)], [(2419200000, Some 1)], [(1814400000, Some 1)],
                  [(1209600000, Some 1)], [(604800000, Some 1)]])"
    by (rule ext)
       (simp add: five_weeks fetch_metrics_sample get_timestamp_ms_def empty_buffer_def)
  have l: "backfill_loop ?T 3024000000000 0 empty_buffer Map.empty =
      Inr (foldl ?F empty_buffer (window_anchors 3024000000000 0), Map.empty)"
    using w by blast
  have "backfill_history ?T 3024000000000 1970 Map.empty =
      flush_buffer ?T (foldl ?F empty_buffer (window_anchors 3024000000000 (datetime_jan1 1970))) Map.empty"
    using w by blast
  then have H: "backfill_history ?T 3024000000000 1970 Map.empty =
      flush_buffer ?T (\<lambda>m. if m = Temp then []
            else [[(3024000000, Some 1)], [(2419200000, Some 1)], [(1814400000, Some 1)],
                  [(1209600000, Some 1)], [(604800000, Some 1)]]) Map.empty"
    by (simp only: jan1_1970 B)
  show ?thesis
    by (simp add: l B H flush_buffer_unfold flush_metric_five flush_metric_none)
qed

text \<open>
  Claim C10. The file of a flush unit is named by the metric and the calendar day of the
  latest timestamp in the unit. Two units of one metric whose latest timestamps fall on
  the same day have the same file, and after both flushes the file holds the rows of the
  second unit only.
\<close>

theorem flush_path_from_latest_day:
  assumes "concat cs1 \<noteq> []" and "concat cs2 \<noteq> []"
    and "Max (fst ` set (concat cs1)) div MS_PER_DAY = Max (fst ` set (concat cs2)) div MS_PER_DAY"
    and "flush_metric env m cs1 disk = Inr disk1"
    and "flush_metric env m cs2 disk1 = Inr disk2"
  shows "csv_filename m (combine_chunks cs1) =
           OUTPUT_DIR @ ''/'' @ metric_name m @ ''_'' @
           format_date (civil_from_days (Max (fst ` set (concat cs1)) div MS_PER_DAY)) @ ''.csv''
    \<and> csv_filename m (combine_chunks cs2) = csv_filename m (combine_chunks cs1)
    \<and> disk1 (csv_filename m (combine_chunks cs1)) = Some (combine_chunks cs1)
    \<and> disk2 (csv_filename m (combine_chunks cs1)) = Some (combine_chunks cs2)
    \<and> disk2 = disk1(csv_filename m (combine_chunks cs1) \<mapsto> combine_chunks cs2)"
proof -
  have n1: "cs1 \<noteq> []" "combine_chunks cs1 \<noteq> []" using assms(1) by (auto simp: combine_chunks_Nil_iff)
  have n2: "cs2 \<noteq> []" "combine_chunks cs2 \<noteq> []" using assms(2) by (auto simp: combine_chunks_Nil_iff)
  have p1: "csv_filename m (combine_chunks cs1) =
           OUTPUT_DIR @ ''/'' @ metric_name m @ ''_'' @
           format_date (civil_from_days (Max (fst ` set (concat cs1)) div MS_PER_DAY)) @ ''.csv''"
    by (simp add: csv_filename_def strftime_Ymd_def last_combine_chunks[OF assms(1)])
  have p2: "csv_filename m (combine_chunks cs2) = csv_filename m (combine_chunks cs1)"
    using assms(3)
    by (simp add: csv_filename_def strftime_Ymd_def last_combine_chunks[OF assms(1)] last_combine_chunks[OF assms(2)])
  have d1: "disk1 = disk(csv_filename m (combine_chunks cs1) \<mapsto> combine_chunks cs1)"
    using assms(4) n1 by (simp add: flush_metric_def Let_def split: if_splits)
  have d2: "disk2 = disk1(csv_filename m (combine_chunks cs2) \<mapsto> combine_chunks cs2)"
    using assms(5) n2 by (simp add: flush_metric_def Let_def split: if_splits)
  show ?thesis using p1 p2 d1 d2 by simp
qed

text \<open>
  Claim C10, the theorem at two units of temp on 2025-01-01, one hour apart.
\<close>

theorem flush_path_from_latest_day_witness:
  "flush_metric (sample_env [] []) Temp [[(1735689600000, Some 1)]] Map.empty
     = Inr [''data_lake/temp_2025-01-01.csv'' \<mapsto> [(1735689600000, Some 1)]]
   \<and> flush_metric (sample_env [] []) Temp [[(1735693200000, Some 2)]]
        [''data_lake/temp_2025-01-01.csv'' \<mapsto> [(1735689600000, Some 1)]]
     = Inr [''data_lake/temp_2025-01-01.csv'' \<mapsto> [(1735693200000, Some 2)]]
   \<and> csv_filename Temp (combine_chunks [[(1735693200000, Some (2::real))]]) = ''data_lake/temp_2025-01-01.csv''"
proof -
  have c1: "combine_chunks [[(1735689600000, Some (1::real))]] = [(1735689600000, Some 1)]"
    and c2: "combine_chunks [[(1735693200000, Some (2::real))]] = [(1735693200000, Some 2)]"
    by (simp_all add: eval_combine)
  have n1: "csv_filename Temp [(1735689600000, Some (1::real))] = ''data_lake/temp_2025-01-01.csv''"
    and n2: "csv_filename Temp [(1735693200000, Some (2::real))] = ''data_lake/temp_2025-01-01.csv''"
    by (simp_all add: csv_filename_def OUTPUT_DIR_def strftime_samples)
  have f1: "flush_metric (sample_env [] []) Temp [[(1735689600000, Some 1)]] Map.empty
     = Inr [''data_lake/temp_2025-01-01.csv'' \<mapsto> [(1735689600000, Some 1)]]"
    by (simp add: flush_metric_def c1 n1 to_csv_raises_sample)
  have f2: "flush_metric (sample_env [] []) Temp [[(1735693200000, Some 2)]]
        [''data_lake/temp_2025-01-01.csv'' \<mapsto> [(1735689600000, Some 1)]]
     = Inr [''data_lake/temp_2025-01-01.csv'' \<mapsto> [(1735689600000, Some 1)],
            ''data_lake/temp_2025-01-01.csv'' \<mapsto> [(1735693200000, Some 2)]]"
    by (simp add: flush_metric_def c2 n2 to_csv_raises_sample)
  have day: "Max (fst ` set (concat [[(1735689600000::int, Some (1::real))]])) div MS_PER_DAY
           = Max (fst ` set (concat [[(1735693200000, Some (2::real))]])) div MS_PER_DAY"
    by (simp add: MS_PER_DAY_def)
  note w = flush_path_from_latest_day[OF _ _ day f1 f2]
  have "csv_filename Temp (combine_chunks [[(1735693200000, Some (2::real))]])
        = csv_filename Temp (combine_chunks [[(1735689600000, Some (1::real))]])"
    using w by simp
  then show ?thesis using f1 f2 by (simp add: c1 n1)
qed

end
